theory Spec2Isabelle
  imports Complex_Main "HOL-Library.Char_ord" "HOL-Library.List_Lexorder"
begin

section \<open>Errors\<close>

text \<open>
  Every \<^verbatim>\<open>raise\<close> of the two programs is a constructor; the comment names the raise site.
  Python's exception class is \<^verbatim>\<open>ValueError\<close> unless said otherwise.
\<close>

datatype error =
    InvalidValue string        \<comment> \<open>\<^verbatim>\<open>"Invalid BigIntHumanReadable value: {value}"\<close>, carrying \<^verbatim>\<open>str(value)\<close>\<close>
  | UnsupportedLength string   \<comment> \<open>\<^verbatim>\<open>"Unsupported length for BigIntHumanReadable ..."\<close>, carrying \<^verbatim>\<open>str(value)\<close>\<close>
  | StrptimeError              \<comment> \<open>raised inside \<^verbatim>\<open>datetime.strptime\<close>\<close>
  | IntError                   \<comment> \<open>raised by \<^verbatim>\<open>int(text)\<close>\<close>
  | OverflowError              \<comment> \<open>class \<^verbatim>\<open>OverflowError\<close>, raised by \<^verbatim>\<open>astimezone\<close>\<close>
  | OrderByError               \<comment> \<open>\<^verbatim>\<open>"order_by must be one of [...]"\<close>\<close>
  | OrderDirError              \<comment> \<open>\<^verbatim>\<open>"order_dir must be 'ASC' or 'DESC'"\<close>\<close>
  | LimitError                 \<comment> \<open>\<^verbatim>\<open>"limit must be between 1 and 10000"\<close>\<close>
  | OffsetError                \<comment> \<open>\<^verbatim>\<open>"offset must be >= 0"\<close>\<close>
  | NotSelectError             \<comment> \<open>raised by \<^verbatim>\<open>fetch_trades_by_sql\<close> when the guard rejects the text\<close>
  | MissingColumnsError string \<comment> \<open>raised by \<^verbatim>\<open>fetch_trades_by_sql\<close>; carries \<^verbatim>\<open>", ".join(sorted(missing))\<close>\<close>
  | KeyError string            \<comment> \<open>class \<^verbatim>\<open>KeyError\<close>, carrying its argument\<close>
  | TypeError                  \<comment> \<open>class \<^verbatim>\<open>TypeError\<close>: \<^verbatim>\<open>int(None)\<close>\<close>
  | BuiltinError               \<comment> \<open>raised by \<^verbatim>\<open>int(v)\<close> or \<^verbatim>\<open>float(v)\<close> on a cell of a row\<close>
  | StoreError                 \<comment> \<open>raised by the database client\<close>
  | ChunksizeError             \<comment> \<open>raised by \<^verbatim>\<open>pandas.read_csv\<close> for a \<^verbatim>\<open>chunksize\<close> below 1\<close>
  | RuntimeError string        \<comment> \<open>class \<^verbatim>\<open>RuntimeError\<close>, carrying its message\<close>

section \<open>Python text\<close>

text \<open>
  A Python \<^verbatim>\<open>str\<close> is modelled as a \<^typ>\<open>string\<close> whose characters are the code points
  0 to 255 (ASCII and Latin-1); text with code points above 255 is outside the model.
  The character classes below are those of Python on that range.
\<close>

definition is_space :: "char \<Rightarrow> bool" where
  "is_space c = (let n = (of_char c :: int) in
     (9 \<le> n \<and> n \<le> 13) \<or> (28 \<le> n \<and> n \<le> 32) \<or> n = 133 \<or> n = 160)"

definition py_lstrip :: "string \<Rightarrow> string" where
  "py_lstrip s = dropWhile is_space s"

definition py_rstrip :: "string \<Rightarrow> string" where
  "py_rstrip s = rev (dropWhile is_space (rev s))"

definition py_strip :: "string \<Rightarrow> string" where
  "py_strip s = py_rstrip (py_lstrip s)"

definition is_ascii_digit :: "char \<Rightarrow> bool" where
  "is_ascii_digit c = (48 \<le> (of_char c :: int) \<and> (of_char c :: int) \<le> 57)"

text \<open>\<^verbatim>\<open>str.isdigit\<close> also accepts the superscript digits U+00B2, U+00B3 and U+00B9.\<close>

definition is_digit_char :: "char \<Rightarrow> bool" where
  "is_digit_char c = (is_ascii_digit c \<or> (of_char c :: int) = 178 \<or> (of_char c :: int) = 179
     \<or> (of_char c :: int) = 185)"

definition py_isdigit :: "string \<Rightarrow> bool" where
  "py_isdigit s = (s \<noteq> [] \<and> list_all is_digit_char s)"

definition lower_char :: "char \<Rightarrow> char" where
  "lower_char c = (let n = (of_char c :: int) in
     if (65 \<le> n \<and> n \<le> 90) \<or> (192 \<le> n \<and> n \<le> 222 \<and> n \<noteq> 215) then char_of (n + 32) else c)"

definition py_lower :: "string \<Rightarrow> string" where
  "py_lower s = map lower_char s"

definition startswith :: "string \<Rightarrow> string \<Rightarrow> bool" where
  "startswith s p = (take (length p) s = p)"

subsection \<open>Decimal numerals\<close>

text \<open>Python integers are unbounded: \<^typ>\<open>int\<close>.\<close>

definition digit_val :: "char \<Rightarrow> int" where
  "digit_val c = of_char c - 48"

definition digit_char :: "int \<Rightarrow> char" where
  "digit_char d = char_of (48 + d)"

definition int_of_digits :: "string \<Rightarrow> int" where
  "int_of_digits s = foldl (\<lambda>a c. 10 * a + digit_val c) 0 s"

text \<open>
  \<^verbatim>\<open>int(text)\<close> on a text without sign, blanks or underscores (every text the codec passes
  to it has passed \<^verbatim>\<open>isdigit\<close> or was printed from digits): the superscript digits are
  refused.
\<close>

definition py_int :: "string \<Rightarrow> error + int" where
  "py_int s = (if s \<noteq> [] \<and> list_all is_ascii_digit s then Inr (int_of_digits s) else Inl IntError)"

text \<open>The decimal digits of a non-negative integer, and \<^verbatim>\<open>str(i)\<close> for any integer.\<close>

function str_nat :: "int \<Rightarrow> string" where
  "str_nat n = (if n < 10 then [digit_char n] else str_nat (n div 10) @ [digit_char (n mod 10)])"
  by pat_completeness auto
termination
  by (relation "measure nat") auto

declare str_nat.simps [simp del]

definition str_int :: "int \<Rightarrow> string" where
  "str_int i = (if i < 0 then CHR ''-'' # str_nat (- i) else str_nat i)"

text \<open>\<^verbatim>\<open>f"{n:0wd}"\<close> and the zero-padded fields of \<^verbatim>\<open>strftime\<close>: at least \<open>w\<close> characters.\<close>

definition zero_pad :: "nat \<Rightarrow> int \<Rightarrow> string" where
  "zero_pad w n = replicate (w - length (str_nat n)) (CHR ''0'') @ str_nat n"

section \<open>Datetimes\<close>

text \<open>
  A \<^verbatim>\<open>datetime\<close> object. \<open>tzinfo = None\<close> is a naive datetime; \<open>Some off\<close> is an aware one
  whose zone is \<open>off\<close> microseconds east of UTC (\<^verbatim>\<open>timezone.utc\<close> is \<open>Some 0\<close>).
\<close>

record datetime =
  year :: int
  month :: int
  day :: int
  hour :: int
  minute :: int
  second :: int
  microsecond :: int
  tzinfo :: "int option"

definition is_leap :: "int \<Rightarrow> bool" where
  "is_leap y = (y mod 4 = 0 \<and> (y mod 100 \<noteq> 0 \<or> y mod 400 = 0))"

definition days_in_month :: "int \<Rightarrow> int \<Rightarrow> int" where
  "days_in_month y m =
     (if m = 2 then (if is_leap y then 29 else 28)
      else if m = 4 \<or> m = 6 \<or> m = 9 \<or> m = 11 then 30 else 31)"

text \<open>The range checks of the \<^verbatim>\<open>datetime\<close> constructor: every datetime object satisfies them.\<close>

definition valid_datetime :: "datetime \<Rightarrow> bool" where
  "valid_datetime dt =
     (1 \<le> year dt \<and> year dt \<le> 9999 \<and> 1 \<le> month dt \<and> month dt \<le> 12 \<and>
      1 \<le> day dt \<and> day dt \<le> days_in_month (year dt) (month dt) \<and>
      0 \<le> hour dt \<and> hour dt \<le> 23 \<and> 0 \<le> minute dt \<and> minute dt \<le> 59 \<and>
      0 \<le> second dt \<and> second dt \<le> 59 \<and> 0 \<le> microsecond dt \<and> microsecond dt \<le> 999999 \<and>
      (case tzinfo dt of None \<Rightarrow> True | Some off \<Rightarrow> - 86400000000 < off \<and> off < 86400000000))"

subsection \<open>Calendar arithmetic of the datetime module\<close>

definition days_before_year :: "int \<Rightarrow> int" where
  "days_before_year y = (let p = y - 1 in p * 365 + p div 4 - p div 100 + p div 400)"

definition DAYS_IN_MONTH :: "int list" where
  "DAYS_IN_MONTH = [- 1, 31, 28, 31, 30, 31, 30, 31, 31, 30, 31, 30, 31]"

definition DAYS_BEFORE_MONTH :: "int list" where
  "DAYS_BEFORE_MONTH = [- 1, 0, 31, 59, 90, 120, 151, 181, 212, 243, 273, 304, 334]"

definition days_before_month :: "int \<Rightarrow> int \<Rightarrow> int" where
  "days_before_month y m =
     DAYS_BEFORE_MONTH ! nat m + (if m > 2 \<and> is_leap y then 1 else 0)"

definition ymd2ord :: "int \<Rightarrow> int \<Rightarrow> int \<Rightarrow> int" where
  "ymd2ord y m d = days_before_year y + days_before_month y m + d"

text \<open>
  \<open>ord2ymd\<close> is called on ordinals from 1 to 3652059 only, where every month it computes
  is between 1 and 12.
\<close>

definition ord2ymd :: "int \<Rightarrow> int \<times> int \<times> int" where
  "ord2ymd ordinal =
     (let n = ordinal - 1;
          n400 = n div 146097; n = n mod 146097;
          n100 = n div 36524; n = n mod 36524;
          n4 = n div 1461; n = n mod 1461;
          n1 = n div 365; n = n mod 365;
          y = n400 * 400 + 1 + n100 * 100 + n4 * 4 + n1
      in if n1 = 4 \<or> n100 = 4 then (y - 1, 12, 31)
         else
           let leapyear = (n1 = 3 \<and> (n4 \<noteq> 24 \<or> n100 = 3));
               m = (n + 50) div 32;
               preceding = DAYS_BEFORE_MONTH ! nat m + (if m > 2 \<and> leapyear then 1 else 0)
           in if preceding > n
              then
                let m' = m - 1;
                    preceding' = preceding
                      - (DAYS_IN_MONTH ! nat m' + (if m' = 2 \<and> leapyear then 1 else 0))
                in (y, m', n - preceding' + 1)
              else (y, m, n - preceding + 1))"

text \<open>
  \<^verbatim>\<open>dt.astimezone(timezone.utc)\<close> on an aware datetime. A datetime already at offset 0 is
  returned as it is; otherwise the offset is subtracted on the microsecond count since
  ordinal 0 and the result is rebuilt, or \<^verbatim>\<open>OverflowError\<close> is raised when the day leaves
  the range of ordinals 1 to 3652059.
\<close>

definition astimezone_utc :: "datetime \<Rightarrow> error + datetime" where
  "astimezone_utc dt =
     (case tzinfo dt of
        None \<Rightarrow> Inr (dt\<lparr>tzinfo := Some 0\<rparr>)
      | Some off \<Rightarrow>
          if off = 0 then Inr dt
          else
            let secs = ymd2ord (year dt) (month dt) (day dt) * 86400
                         + hour dt * 3600 + minute dt * 60 + second dt;
                total = secs * 1000000 + microsecond dt - off;
                days = total div 86400000000;
                rest = total mod 86400000000;
                s = rest div 1000000
            in if 0 < days \<and> days \<le> 3652059
               then (case ord2ymd days of (y, m, d) \<Rightarrow>
                 Inr \<lparr>year = y, month = m, day = d, hour = s div 3600,
                      minute = (s mod 3600) div 60, second = s mod 60,
                      microsecond = rest mod 1000000, tzinfo = Some 0\<rparr>)
               else Inl OverflowError)"

subsection \<open>Parsing and printing with the format \<^verbatim>\<open>%Y%m%d%H%M%S\<close>\<close>

text \<open>
  \<^verbatim>\<open>datetime.strptime(s, "%Y%m%d%H%M%S")\<close> for a text of 14 characters, the only length
  the codec passes. The format's pattern gives the year four ASCII digits and every other
  field at most two, so 14 characters match only when each field takes two digits, within
  the range the pattern allows; the date and the second are then checked by the
  constructors. The result is naive.
\<close>

definition strptime_YmdHMS :: "string \<Rightarrow> error + datetime" where
  "strptime_YmdHMS s =
     (if \<not> list_all is_ascii_digit s then Inl StrptimeError
      else
        let Y = int_of_digits (take 4 s);
            m = int_of_digits (take 2 (drop 4 s));
            d = int_of_digits (take 2 (drop 6 s));
            H = int_of_digits (take 2 (drop 8 s));
            M = int_of_digits (take 2 (drop 10 s));
            S = int_of_digits (take 2 (drop 12 s))
        in if \<not> (1 \<le> m \<and> m \<le> 12 \<and> 1 \<le> d \<and> d \<le> 31 \<and> H \<le> 23 \<and> M \<le> 59 \<and> S \<le> 61)
           then Inl StrptimeError
           else if \<not> (1 \<le> Y \<and> d \<le> days_in_month Y m) then Inl StrptimeError
           else if S > 59 then Inl StrptimeError
           else Inr \<lparr>year = Y, month = m, day = d, hour = H, minute = M, second = S,
                     microsecond = 0, tzinfo = None\<rparr>)"

text \<open>
  \<^verbatim>\<open>dt.strftime("%Y%m%d%H%M%S")\<close>, the year zero-padded to four digits as documented
  (a C library that does not pad it gives the same integer once \<^verbatim>\<open>int\<close> is applied).
\<close>

definition strftime_YmdHMS :: "datetime \<Rightarrow> string" where
  "strftime_YmdHMS dt =
     zero_pad 4 (year dt) @ zero_pad 2 (month dt) @ zero_pad 2 (day dt) @
     zero_pad 2 (hour dt) @ zero_pad 2 (minute dt) @ zero_pad 2 (second dt)"

section \<open>The timestamp codec\<close>

text \<open>The argument of the decoder: \<^verbatim>\<open>Optional[int | str]\<close>.\<close>

datatype bigint_hr = IntV int | StrV string

definition py_str :: "bigint_hr \<Rightarrow> string" where
  "py_str v = (case v of IntV i \<Rightarrow> str_int i | StrV s \<Rightarrow> s)"

definition is_epoch_sentinel :: "bigint_hr option \<Rightarrow> bool" where
  "is_epoch_sentinel val =
     (case val of
        None \<Rightarrow> True
      | Some v \<Rightarrow> (let s = py_strip (py_str v) in s = ''0'' \<or> s = ''19700101000000000''))"

definition bigint_hr_to_datetime :: "bigint_hr option \<Rightarrow> error + datetime option" where
  "bigint_hr_to_datetime val =
     (case val of
        None \<Rightarrow> Inr None
      | Some v \<Rightarrow>
          let s = py_strip (py_str v) in
          if s = [] \<or> is_epoch_sentinel (Some (StrV s)) then Inr None
          else if \<not> py_isdigit s then Inl (InvalidValue (py_str v))
          else if length s = 14 then
            (case strptime_YmdHMS s of
               Inl e \<Rightarrow> Inl e
             | Inr dt \<Rightarrow> Inr (Some (dt\<lparr>tzinfo := Some 0\<rparr>)))
          else if length s = 17 then
            (let base = take 14 s; ms = drop 14 s in
             case strptime_YmdHMS base of
               Inl e \<Rightarrow> Inl e
             | Inr dt \<Rightarrow>
                 (case py_int ms of
                    Inl e \<Rightarrow> Inl e
                  | Inr n \<Rightarrow> Inr (Some (dt\<lparr>microsecond := n * 1000, tzinfo := Some 0\<rparr>))))
          else Inl (UnsupportedLength (py_str v)))"

text \<open>
  \<^verbatim>\<open>int(round(us / 1000.0))\<close> for \<open>us\<close> from 0 to 999999. Python rounds a float to the
  nearest integer and a tie to the even one. The quotient is a tie exactly when
  \<open>us mod 1000 = 500\<close>, where the float division is exact; elsewhere the quotient is at
  least 0.001 from a tie, far more than the error of the division, so the integer
  arithmetic below gives the same result.
\<close>

definition round_ms :: "int \<Rightarrow> int" where
  "round_ms us =
     (let q = us div 1000; r = us mod 1000
      in if r < 500 then q else if r > 500 then q + 1 else if even q then q else q + 1)"

definition datetime_to_bigint_hr :: "datetime option \<Rightarrow> error + int option" where
  "datetime_to_bigint_hr dto =
     (case dto of
        None \<Rightarrow> Inr None
      | Some dt \<Rightarrow>
          (case (if tzinfo dt = None then Inr (dt\<lparr>tzinfo := Some 0\<rparr>) else astimezone_utc dt) of
             Inl e \<Rightarrow> Inl e
           | Inr aware \<Rightarrow>
               let ms = round_ms (microsecond aware);
                   aware' = (if ms = 1000 then aware\<lparr>microsecond := 0\<rparr> else aware);
                   ms' = (if ms = 1000 then 0 else ms)
               in (case py_int (strftime_YmdHMS aware' @ zero_pad 3 ms') of
                     Inl e \<Rightarrow> Inl e
                   | Inr n \<Rightarrow> Inr (Some n))))"

definition bind_err :: "error + 'a \<Rightarrow> ('a \<Rightarrow> error + 'b) \<Rightarrow> error + 'b" where
  "bind_err m f = (case m of Inl e \<Rightarrow> Inl e | Inr x \<Rightarrow> f x)"

text \<open>\<^verbatim>\<open>sep.join(xs)\<close>, \<^verbatim>\<open>s.find(sub)\<close>.\<close>

fun join :: "string \<Rightarrow> string list \<Rightarrow> string" where
  "join sep [] = []"
| "join sep [x] = x"
| "join sep (x # y # ys) = x @ sep @ join sep (y # ys)"

fun py_find :: "string \<Rightarrow> string \<Rightarrow> nat option" where
  "py_find sub [] = (if sub = [] then Some 0 else None)"
| "py_find sub (c # cs) =
     (if startswith (c # cs) sub then Some 0 else map_option Suc (py_find sub cs))"

section \<open>The query builder\<close>

record TradeQuery =
  trade_account_id :: "int option"
  ticket :: "int option"
  symbol :: "string option"
  opened_from :: "datetime option"
  opened_to :: "datetime option"
  closed_from :: "datetime option"
  closed_to :: "datetime option"
  comment_like :: "string option"
  limit :: int
  offset :: int
  order_by :: string
  order_dir :: string

definition validate :: "TradeQuery \<Rightarrow> error + unit" where
  "validate q =
     (if order_by q \<notin> {''ID'', ''OpenTime'', ''CloseTime'', ''TimeStamp'', ''Ticket''}
      then Inl OrderByError
      else if order_dir q \<notin> {''ASC'', ''DESC''} then Inl OrderDirError
      else if limit q \<le> 0 \<or> limit q > 10000 then Inl LimitError
      else if offset q < 0 then Inl OffsetError
      else Inr ())"

definition COLUMNS :: "string list" where
  "COLUMNS =
     [''ID'', ''TradeAccountID'', ''Ticket'', ''SymbolName'', ''Digits'', ''Type'', ''Quantity'',
      ''State'', ''OpenTime'', ''OpenPrice'', ''OpenRate'', ''CloseTime'', ''ClosePrice'',
      ''CloseRate'', ''StopLoss'', ''TakeProfit'', ''Expiration'', ''Commission'',
      ''CommissionAgent'', ''Swap'', ''Profit'', ''Tax'', ''Magic'', ''Comment'', ''TimeStamp'']"

definition REQUIRED_SET :: "string set" where
  "REQUIRED_SET = set COLUMNS"

text \<open>A bound query parameter: \<^verbatim>\<open>None\<close>, an integer or a text.\<close>

datatype param = NoneP | IntP int | StrP string

definition opt_param :: "int option \<Rightarrow> param" where
  "opt_param r = (case r of None \<Rightarrow> NoneP | Some n \<Rightarrow> IntP n)"

text \<open>The two lists \<^verbatim>\<open>clauses\<close> and \<^verbatim>\<open>params\<close>, appended to together.\<close>

definition append_clause :: "string \<Rightarrow> param \<Rightarrow> string list \<times> param list \<Rightarrow> string list \<times> param list" where
  "append_clause c p st = (fst st @ [c], snd st @ [p])"

definition build_where_and_params :: "TradeQuery \<Rightarrow> error + (string \<times> param list)" where
  "build_where_and_params q =
     bind_err (validate q) (\<lambda>_.
       let st0 = ([], []);
           st1 = (case trade_account_id q of
                    None \<Rightarrow> st0
                  | Some a \<Rightarrow> append_clause ''TradeAccountID = %s'' (IntP a) st0);
           st2 = (case ticket q of
                    None \<Rightarrow> st1
                  | Some t \<Rightarrow> append_clause ''Ticket = %s'' (IntP t) st1);
           st3 = (case symbol q of
                    None \<Rightarrow> st2
                  | Some s \<Rightarrow> if s \<noteq> [] then append_clause ''SymbolName = %s'' (StrP s) st2 else st2)
       in
       bind_err (case opened_from q of
                   None \<Rightarrow> Inr st3
                 | Some dt \<Rightarrow> bind_err (datetime_to_bigint_hr (Some dt))
                     (\<lambda>r. Inr (append_clause ''OpenTime >= %s'' (opt_param r) st3))) (\<lambda>st4.
       bind_err (case opened_to q of
                   None \<Rightarrow> Inr st4
                 | Some dt \<Rightarrow> bind_err (datetime_to_bigint_hr (Some dt))
                     (\<lambda>r. Inr (append_clause ''OpenTime <= %s'' (opt_param r) st4))) (\<lambda>st5.
       bind_err (case closed_from q of
                   None \<Rightarrow> Inr st5
                 | Some dt \<Rightarrow> bind_err (datetime_to_bigint_hr (Some dt))
                     (\<lambda>r. Inr (append_clause ''CloseTime >= %s'' (opt_param r) st5))) (\<lambda>st6.
       bind_err (case closed_to q of
                   None \<Rightarrow> Inr st6
                 | Some dt \<Rightarrow> bind_err (datetime_to_bigint_hr (Some dt))
                     (\<lambda>r. Inr (append_clause ''CloseTime <= %s'' (opt_param r) st6))) (\<lambda>st7.
       let st8 = (case comment_like q of
                    None \<Rightarrow> st7
                  | Some s \<Rightarrow>
                      if s \<noteq> [] then append_clause ''Comment LIKE %s'' (StrP (''%'' @ s @ ''%'')) st7
                      else st7);
           where_sql = (if fst st8 \<noteq> [] then '' WHERE '' @ join '' AND '' (fst st8) else [])
       in Inr (where_sql, snd st8))))))"

section \<open>The store and the record mapper\<close>

text \<open>
  The values of a row are those the database client returns (\<^verbatim>\<open>Any\<close>): the type \<open>'v\<close>,
  with \<open>None\<close> for Python's \<^verbatim>\<open>None\<close>. The built-ins \<^verbatim>\<open>int\<close>, \<^verbatim>\<open>float\<close> and \<^verbatim>\<open>str\<close> on such a
  value are parameters of the model; \<open>'f\<close> is the type of floats.
\<close>

record ('v, 'f) builtins =
  to_int :: "'v \<Rightarrow> error + int"
  to_float :: "'v \<Rightarrow> error + 'f"
  to_str :: "'v \<Rightarrow> string"

type_synonym 'v row = "string \<rightharpoonup> 'v option"

definition row_get :: "'v row \<Rightarrow> string \<Rightarrow> 'v option" where
  "row_get r k = (case r k of None \<Rightarrow> None | Some c \<Rightarrow> c)"

record 'f TradeRecord =
  rec_id :: int
  rec_trade_account_id :: "int option"
  rec_ticket :: "int option"
  rec_symbol_name :: "string option"
  rec_digits :: "int option"
  rec_type :: "int option"
  rec_quantity :: "'f option"
  rec_state :: "int option"
  rec_open_time :: "datetime option"
  rec_open_price :: "'f option"
  rec_open_rate :: "'f option"
  rec_close_time :: "datetime option"
  rec_close_price :: "'f option"
  rec_close_rate :: "'f option"
  rec_stop_loss :: "'f option"
  rec_take_profit :: "'f option"
  rec_expiration :: "datetime option"
  rec_commission :: "'f option"
  rec_commission_agent :: "'f option"
  rec_swap :: "'f option"
  rec_profit :: "'f option"
  rec_tax :: "'f option"
  rec_magic :: "int option"
  rec_comment :: "string option"
  rec_timestamp :: "datetime option"

definition opt_int :: "('v, 'f) builtins \<Rightarrow> 'v option \<Rightarrow> error + int option" where
  "opt_int b v = (case v of None \<Rightarrow> Inr None | Some x \<Rightarrow> bind_err (to_int b x) (\<lambda>i. Inr (Some i)))"

definition opt_float :: "('v, 'f) builtins \<Rightarrow> 'v option \<Rightarrow> error + 'f option" where
  "opt_float b v = (case v of None \<Rightarrow> Inr None | Some x \<Rightarrow> bind_err (to_float b x) (\<lambda>f. Inr (Some f)))"

definition opt_str :: "('v, 'f) builtins \<Rightarrow> 'v option \<Rightarrow> string option" where
  "opt_str b v =
     (case v of None \<Rightarrow> None | Some x \<Rightarrow> (let s = to_str b x in if s \<noteq> [] then Some s else None))"

text \<open>
  The decoder reads its argument through \<^verbatim>\<open>str(value)\<close> only, so a cell is handed to it
  as the text \<^verbatim>\<open>str\<close> gives.
\<close>

definition decode_cell :: "('v, 'f) builtins \<Rightarrow> 'v option \<Rightarrow> error + datetime option" where
  "decode_cell b v = bigint_hr_to_datetime (map_option (\<lambda>x. StrV (to_str b x)) v)"

definition row_to_trade_record :: "('v, 'f) builtins \<Rightarrow> 'v row \<Rightarrow> error + 'f TradeRecord" where
  "row_to_trade_record b r =
     bind_err (case r ''ID'' of
                 None \<Rightarrow> Inl (KeyError ''ID'')
               | Some None \<Rightarrow> Inl TypeError
               | Some (Some x) \<Rightarrow> to_int b x) (\<lambda>v1.
     bind_err (opt_int b (row_get r ''TradeAccountID'')) (\<lambda>v2.
     bind_err (opt_int b (row_get r ''Ticket'')) (\<lambda>v3.
     bind_err (Inr (opt_str b (row_get r ''SymbolName''))) (\<lambda>v4.
     bind_err (opt_int b (row_get r ''Digits'')) (\<lambda>v5.
     bind_err (opt_int b (row_get r ''Type'')) (\<lambda>v6.
     bind_err (opt_float b (row_get r ''Quantity'')) (\<lambda>v7.
     bind_err (opt_int b (row_get r ''State'')) (\<lambda>v8.
     bind_err (decode_cell b (row_get r ''OpenTime'')) (\<lambda>v9.
     bind_err (opt_float b (row_get r ''OpenPrice'')) (\<lambda>v10.
     bind_err (opt_float b (row_get r ''OpenRate'')) (\<lambda>v11.
     bind_err (decode_cell b (row_get r ''CloseTime'')) (\<lambda>v12.
     bind_err (opt_float b (row_get r ''ClosePrice'')) (\<lambda>v13.
     bind_err (opt_float b (row_get r ''CloseRate'')) (\<lambda>v14.
     bind_err (opt_float b (row_get r ''StopLoss'')) (\<lambda>v15.
     bind_err (opt_float b (row_get r ''TakeProfit'')) (\<lambda>v16.
     bind_err (decode_cell b (row_get r ''Expiration'')) (\<lambda>v17.
     bind_err (opt_float b (row_get r ''Commission'')) (\<lambda>v18.
     bind_err (opt_float b (row_get r ''CommissionAgent'')) (\<lambda>v19.
     bind_err (opt_float b (row_get r ''Swap'')) (\<lambda>v20.
     bind_err (opt_float b (row_get r ''Profit'')) (\<lambda>v21.
     bind_err (opt_float b (row_get r ''Tax'')) (\<lambda>v22.
     bind_err (opt_int b (row_get r ''Magic'')) (\<lambda>v23.
     bind_err (Inr (opt_str b (row_get r ''Comment''))) (\<lambda>v24.
     bind_err (decode_cell b (row_get r ''TimeStamp'')) (\<lambda>v25.
     Inr \<lparr>rec_id = v1, rec_trade_account_id = v2, rec_ticket = v3, rec_symbol_name = v4,
          rec_digits = v5, rec_type = v6, rec_quantity = v7, rec_state = v8,
          rec_open_time = v9, rec_open_price = v10, rec_open_rate = v11,
          rec_close_time = v12, rec_close_price = v13, rec_close_rate = v14,
          rec_stop_loss = v15, rec_take_profit = v16, rec_expiration = v17,
          rec_commission = v18, rec_commission_agent = v19, rec_swap = v20,
          rec_profit = v21, rec_tax = v22, rec_magic = v23, rec_comment = v24,
          rec_timestamp = v25\<rparr>)))))))))))))))))))))))))"

text \<open>A list comprehension over a function that may raise: the first error ends it.\<close>

fun map_err :: "('a \<Rightarrow> error + 'b) \<Rightarrow> 'a list \<Rightarrow> error + 'b list" where
  "map_err f [] = Inr []"
| "map_err f (x # xs) = bind_err (f x) (\<lambda>y. bind_err (map_err f xs) (\<lambda>ys. Inr (y # ys)))"

text \<open>
  The store: whether \<^verbatim>\<open>connect\<close> succeeds, and what \<^verbatim>\<open>execute\<close> followed by \<^verbatim>\<open>fetchall\<close>
  gives for a statement and its parameters: an error, or the column names of
  \<^verbatim>\<open>cursor.description\<close> with the rows. Every function that talks to the store returns
  its outcome together with the list of the statements it has sent.
\<close>

record 'v store =
  can_connect :: bool
  execute :: "string \<Rightarrow> param list \<Rightarrow> error + (string list \<times> 'v row list)"

type_synonym statement = "string \<times> param list"

definition fetch_trades ::
  "('v, 'f) builtins \<Rightarrow> 'v store \<Rightarrow> TradeQuery \<Rightarrow> (error + 'f TradeRecord list) \<times> statement list" where
  "fetch_trades b db query =
     (let columns_sql = join '', '' COLUMNS in
      case build_where_and_params query of
        Inl e \<Rightarrow> (Inl e, [])
      | Inr (where_sql, params) \<Rightarrow>
          let sql = ''SELECT '' @ columns_sql @ '' FROM TradeHistories'' @ where_sql @
                    '' ORDER BY '' @ order_by query @ '' '' @ order_dir query @
                    '' LIMIT %s OFFSET %s'';
              params = params @ [IntP (limit query), IntP (offset query)]
          in if \<not> can_connect db then (Inl StoreError, [])
             else (case execute db sql params of
                     Inl e \<Rightarrow> (Inl e, [(sql, params)])
                   | Inr (cols, rows) \<Rightarrow> (map_err (row_to_trade_record b) rows, [(sql, params)])))"

section \<open>The raw-query guard\<close>

text \<open>The two \<^verbatim>\<open>while\<close> loops of \<^verbatim>\<open>_strip_leading_comments\<close>, in the order of the source.\<close>

function strip_block_loop :: "string \<Rightarrow> string" where
  "strip_block_loop s =
     (if startswith s ''/*''
      then (case py_find ''*/'' s of
              None \<Rightarrow> s
            | Some e \<Rightarrow> strip_block_loop (py_lstrip (drop (e + 2) s)))
      else s)"
  by pat_completeness auto
termination
proof (relation "measure length")
  show "wf (measure length)" by simp
next
  fix s :: string and e :: nat
  assume "startswith s ''/*''"
  then have "2 \<le> length s" by (cases s; cases "tl s") (auto simp: startswith_def)
  moreover have "length (py_lstrip (drop (e + 2) s)) \<le> length (drop (e + 2) s)"
    unfolding py_lstrip_def by (rule length_dropWhile_le)
  ultimately show "(py_lstrip (drop (e + 2) s), s) \<in> measure length" by simp
qed

function strip_line_loop :: "string \<Rightarrow> string" where
  "strip_line_loop s =
     (if startswith s ''--''
      then (case py_find [CHR 0x0A] s of
              None \<Rightarrow> strip_line_loop (py_lstrip [])
            | Some nl \<Rightarrow> strip_line_loop (py_lstrip (drop (nl + 1) s)))
      else s)"
  by pat_completeness auto
termination
proof (relation "measure length")
  show "wf (measure length)" by simp
next
  fix s :: string
  assume "startswith s ''--''"
  then have "2 \<le> length s" by (cases s; cases "tl s") (auto simp: startswith_def)
  then show "(py_lstrip [], s) \<in> measure length" by (auto simp: py_lstrip_def)
next
  fix s :: string and nl :: nat
  assume "startswith s ''--''"
  then have "2 \<le> length s" by (cases s; cases "tl s") (auto simp: startswith_def)
  moreover have "length (py_lstrip (drop (nl + 1) s)) \<le> length (drop (nl + 1) s)"
    unfolding py_lstrip_def by (rule length_dropWhile_le)
  ultimately show "(py_lstrip (drop (nl + 1) s), s) \<in> measure length" by simp
qed

declare strip_block_loop.simps [simp del] strip_line_loop.simps [simp del]

definition strip_leading_comments :: "string \<Rightarrow> string" where
  "strip_leading_comments sql = strip_line_loop (strip_block_loop (py_lstrip sql))"

definition is_select_only :: "string \<Rightarrow> bool" where
  "is_select_only sql = (py_lower (take 6 (strip_leading_comments sql)) = ''select'')"

definition fetch_trades_by_sql ::
  "('v, 'f) builtins \<Rightarrow> 'v store \<Rightarrow> string \<Rightarrow> (error + 'f TradeRecord list) \<times> statement list" where
  "fetch_trades_by_sql b db sql =
     (if \<not> is_select_only sql then (Inl NotSelectError, [])
      else if \<not> can_connect db then (Inl StoreError, [])
      else (case execute db sql [] of
              Inl e \<Rightarrow> (Inl e, [(sql, [])])
            | Inr (cols, rows) \<Rightarrow>
                if rows = [] then (Inr [], [(sql, [])])
                else
                  let missing = REQUIRED_SET - set cols in
                  if missing \<noteq> {}
                  then (Inl (MissingColumnsError (join '', '' (sorted_list_of_set missing))),
                        [(sql, [])])
                  else (map_err (row_to_trade_record b) rows, [(sql, [])])))"

section \<open>The CSV filter\<close>

text \<open>
  A CSV file is modelled by its column names and its rows of fields, a field being the
  text between two separators; the quoting of a field in the bytes of the file is not
  modelled. The column names are those that the reader gives to the chunks, and a row
  has one field for each column.

  A cell of a chunk as \<^verbatim>\<open>read_csv\<close> delivers it is missing (NaN), an integer, a float
  or a text; booleans are not modelled. The conversions of pandas that are not defined
  here are parameters:
  \<open>parse_number\<close> is what \<^verbatim>\<open>to_numeric\<close> makes of a text (\<open>None\<close> when it does not parse,
  which \<^verbatim>\<open>errors="coerce"\<close> turns into NaN),
  \<open>format_number\<close> what \<^verbatim>\<open>astype("string")\<close> makes of a float,
  \<open>is_na\<close> the texts that \<^verbatim>\<open>read_csv\<close> takes as missing (its defaults and those of
  \<^verbatim>\<open>--na-values\<close>),
  \<open>infer_rest\<close> the cell that \<^verbatim>\<open>read_csv\<close> makes of a field in a column that is not
  read as \<^verbatim>\<open>int64\<close>, given the fields of that column in the chunk (its casts to
  \<^verbatim>\<open>float64\<close>, \<^verbatim>\<open>bool\<close> and \<^verbatim>\<open>object\<close>),
  \<open>repr_float\<close> the text that \<^verbatim>\<open>to_csv\<close> writes for a float.
\<close>

datatype cell = NA | IntC int | Num rat | Str string

record dataframe =
  columns :: "string list"
  rows :: "cell list list"

record pandas =
  parse_number :: "string \<Rightarrow> rat option"
  format_number :: "rat \<Rightarrow> string"
  is_na :: "string \<Rightarrow> bool"
  infer_rest :: "string list \<Rightarrow> string \<Rightarrow> cell"
  repr_float :: "rat \<Rightarrow> string"

definition CANCELLED_TOKENS :: "string set" where
  "CANCELLED_TOKENS = {''cancelled'', ''canceled''}"

text \<open>\<^verbatim>\<open>df[name]\<close>: the cells of one column; a row too short has a missing cell there.\<close>

definition cell_of :: "string list \<Rightarrow> cell list \<Rightarrow> string \<Rightarrow> cell" where
  "cell_of cols r name = (case map_of (zip cols r) name of None \<Rightarrow> NA | Some c \<Rightarrow> c)"

definition column :: "dataframe \<Rightarrow> string \<Rightarrow> cell list" where
  "column df name = map (\<lambda>r. cell_of (columns df) r name) (rows df)"

definition to_numeric :: "pandas \<Rightarrow> cell \<Rightarrow> rat option" where
  "to_numeric p c =
     (case c of NA \<Rightarrow> None | IntC k \<Rightarrow> Some (of_int k) | Num x \<Rightarrow> Some x | Str s \<Rightarrow> parse_number p s)"

definition astype_string :: "pandas \<Rightarrow> cell \<Rightarrow> string option" where
  "astype_string p c =
     (case c of NA \<Rightarrow> None | IntC k \<Rightarrow> Some (str_int k) | Num x \<Rightarrow> Some (format_number p x)
      | Str s \<Rightarrow> Some s)"

definition normalize_comment :: "pandas \<Rightarrow> cell list \<Rightarrow> string list" where
  "normalize_comment p series =
     map (\<lambda>c. py_lower (py_strip (case astype_string p c of None \<Rightarrow> [] | Some s \<Rightarrow> s))) series"

text \<open>\<^verbatim>\<open>mag.eq(0)\<close> is false on NaN, so the \<^verbatim>\<open>fillna(False)\<close> that follows changes nothing.\<close>

definition magic_is_zero :: "pandas \<Rightarrow> cell list \<Rightarrow> bool list" where
  "magic_is_zero p series =
     map (\<lambda>c. case to_numeric p c of None \<Rightarrow> False | Some x \<Rightarrow> x = 0) series"

text \<open>\<^verbatim>\<open>df.loc[~mask]\<close>: the rows whose mask is false, in order.\<close>

definition loc_not :: "dataframe \<Rightarrow> bool list \<Rightarrow> dataframe" where
  "loc_not df msk = df\<lparr>rows := map snd (filter (\<lambda>(m, r). \<not> m) (zip msk (rows df)))\<rparr>"

definition filter_chunk :: "pandas \<Rightarrow> dataframe \<Rightarrow> error + dataframe" where
  "filter_chunk p df =
     (if ''magic'' \<notin> set (columns df) then Inl (KeyError ''Missing 'magic' column in CSV'')
      else if ''comment'' \<notin> set (columns df)
      then (let magic_zero = magic_is_zero p (column df ''magic'') in Inr (loc_not df magic_zero))
      else
        let magic_zero = magic_is_zero p (column df ''magic'');
            comments = normalize_comment p (column df ''comment'');
            cancelled = map (\<lambda>s. s \<in> CANCELLED_TOKENS) comments;
            mask_drop = map (\<lambda>(a, b). a \<or> b) (zip magic_zero cancelled)
        in Inr (loc_not df mask_drop))"

subsection \<open>Writing a chunk\<close>

text \<open>
  The field that \<^verbatim>\<open>to_csv\<close> writes for a cell: nothing for a missing cell (\<^verbatim>\<open>na_rep\<close> is
  empty), the decimal text of an integer, the text of a text cell.
\<close>

definition to_csv_field :: "pandas \<Rightarrow> cell \<Rightarrow> string" where
  "to_csv_field p c =
     (case c of NA \<Rightarrow> [] | IntC k \<Rightarrow> str_int k | Num x \<Rightarrow> repr_float p x | Str s \<Rightarrow> s)"

text \<open>
  The loop of \<^verbatim>\<open>filter_csv\<close> over the chunks the reader yields. The state is the two
  counters, whether the header is written, and the output file: absent, or its header and
  the rows of fields appended so far. \<^verbatim>\<open>to_csv\<close> with \<^verbatim>\<open>mode="a"\<close> and \<^verbatim>\<open>index=False\<close>
  appends the column names when asked for the header, then the fields of the rows. The
  outcome of the loop is the error that ended the run, if any, and the state it left.
\<close>

record csv_state =
  total_in :: nat
  total_out :: nat
  wrote_header :: bool
  out_file :: "(string list \<times> string list list) option"

definition to_csv_append :: "pandas \<Rightarrow> dataframe \<Rightarrow> bool \<Rightarrow> (string list \<times> string list list) option
    \<Rightarrow> (string list \<times> string list list) option" where
  "to_csv_append p out header f =
     (let written = map (map (to_csv_field p)) (rows out) in
      case f of
        None \<Rightarrow> Some (if header then columns out else [], written)
      | Some (h, rs) \<Rightarrow> Some (if header then h @ columns out else h, rs @ written))"

fun filter_csv_loop :: "pandas \<Rightarrow> dataframe list \<Rightarrow> csv_state \<Rightarrow> error option \<times> csv_state" where
  "filter_csv_loop p [] st = (None, st)"
| "filter_csv_loop p (chunk # reader) st =
     (let st1 = st\<lparr>total_in := total_in st + length (rows chunk)\<rparr> in
      case filter_chunk p chunk of
        Inl ke \<Rightarrow> (Some ke, st1)
      | Inr out \<Rightarrow>
          filter_csv_loop p reader
            (st1\<lparr>total_out := total_out st1 + length (rows out),
                 out_file := to_csv_append p out (\<not> wrote_header st1) (out_file st1),
                 wrote_header := True\<rparr>))"

text \<open>
  \<^verbatim>\<open>filter_csv\<close> from its loop on, over the chunks of an open reader: any old output
  file has been removed, the counters are zero.
\<close>

definition filter_csv :: "pandas \<Rightarrow> dataframe list \<Rightarrow> error option \<times> csv_state" where
  "filter_csv p reader =
     filter_csv_loop p reader \<lparr>total_in = 0, total_out = 0, wrote_header = False, out_file = None\<rparr>"

subsection \<open>Reading the chunks\<close>

text \<open>
  The first cast that \<^verbatim>\<open>read_csv\<close> tries on the fields of a column is \<^verbatim>\<open>int64\<close>, with
  the function \<^verbatim>\<open>str_to_int64\<close> of its tokenizer: blanks, an optional sign, at least one
  digit, blanks, and a value in the range of 64 bits. The blanks of C are the space and
  the characters 9 to 13.
\<close>

definition is_c_space :: "char \<Rightarrow> bool" where
  "is_c_space c = (let n = (of_char c :: int) in n = 32 \<or> (9 \<le> n \<and> n \<le> 13))"

definition str_to_int64 :: "string \<Rightarrow> int option" where
  "str_to_int64 w =
     (let p = dropWhile is_c_space w;
          isneg = (p \<noteq> [] \<and> hd p = CHR ''-'');
          p1 = (if p \<noteq> [] \<and> (hd p = CHR ''-'' \<or> hd p = CHR ''+'') then tl p else p);
          ds = takeWhile is_ascii_digit p1;
          rest = dropWhile is_c_space (dropWhile is_ascii_digit p1);
          v = (if isneg then - int_of_digits ds else int_of_digits ds)
      in if ds \<noteq> [] \<and> rest = [] \<and> - (2 ^ 63) \<le> v \<and> v \<le> 2 ^ 63 - 1 then Some v else None)"

definition is_int64_text :: "string \<Rightarrow> bool" where
  "is_int64_text w = (str_to_int64 w \<noteq> None)"

text \<open>
  A column stays \<^verbatim>\<open>int64\<close> when none of its fields in the chunk is missing and all of
  them are integers; with a missing field it is made a column of floats, which is part
  of \<open>infer_rest\<close>.
\<close>

definition int64_column :: "pandas \<Rightarrow> string list \<Rightarrow> bool" where
  "int64_column p ws = list_all (\<lambda>v. \<not> is_na p v \<and> is_int64_text v) ws"

definition convert_field :: "pandas \<Rightarrow> string list \<Rightarrow> string \<Rightarrow> cell" where
  "convert_field p ws w =
     (if int64_column p ws
      then (case str_to_int64 w of None \<Rightarrow> NA | Some k \<Rightarrow> IntC k)
      else infer_rest p ws w)"

text \<open>The field of a row in a column; the reader pads a short row with empty fields.\<close>

definition field :: "string list \<Rightarrow> nat \<Rightarrow> string" where
  "field r j = (if j < length r then r ! j else [])"

text \<open>
  With \<^verbatim>\<open>low_memory=False\<close> every column of a chunk is converted as a whole, from the
  fields of the rows of that chunk.
\<close>

definition read_chunk :: "pandas \<Rightarrow> string list \<Rightarrow> string list list \<Rightarrow> dataframe" where
  "read_chunk p cols rws =
     \<lparr>columns = cols,
      rows = map (\<lambda>r. map (\<lambda>j. convert_field p (map (\<lambda>r'. field r' j) rws) (field r j))
                         [0..<length cols]) rws\<rparr>"






section \<open>Sample inputs\<close>

definition q_default :: TradeQuery where
  "q_default = \<lparr>trade_account_id = None, ticket = None, symbol = None, opened_from = None,
     opened_to = None, closed_from = None, closed_to = None, comment_like = None,
     limit = 100, offset = 0, order_by = ''OpenTime'', order_dir = ''ASC''\<rparr>"

definition b_int :: "(int, int) builtins" where
  "b_int = \<lparr>to_int = Inr, to_float = Inr, to_str = str_int\<rparr>"

definition db_empty :: "int store" where
  "db_empty = \<lparr>can_connect = True, execute = (\<lambda>sql ps. Inr ([], []))\<rparr>"

definition q_sample :: TradeQuery where
  "q_sample = q_default\<lparr>trade_account_id := Some 111, symbol := Some ''EURUSD'',
     opened_from := Some \<lparr>year = 2023, month = 2, day = 9, hour = 0, minute = 0, second = 0,
                           microsecond = 0, tzinfo = Some 0\<rparr>,
     opened_to := Some \<lparr>year = 2023, month = 2, day = 10, hour = 1, minute = 0, second = 0,
                         microsecond = 0, tzinfo = Some 7200000000\<rparr>,
     comment_like := Some ''hedge''\<rparr>"

text \<open>A query whose opening bound is the first hour of year 1 in a zone one hour east of UTC.\<close>

definition q_overflow :: TradeQuery where
  "q_overflow = q_default\<lparr>opened_from :=
     Some \<lparr>year = 1, month = 1, day = 1, hour = 0, minute = 0, second = 0,
           microsecond = 0, tzinfo = Some 3600000000\<rparr>\<rparr>"

text \<open>A store whose result has one row and every required column but \<^verbatim>\<open>Ticket\<close> and \<^verbatim>\<open>Digits\<close>.\<close>

definition db_missing :: "int store" where
  "db_missing = \<lparr>can_connect = True,
     execute = (\<lambda>sql ps. Inr (filter (\<lambda>c. c \<noteq> ''Ticket'' \<and> c \<noteq> ''Digits'') COLUMNS, [Map.empty]))\<rparr>"

definition sql_commented_delete :: string where
  "sql_commented_delete = ''/*/select*/ DELETE FROM TradeHistories''"

definition sql_line_then_block :: string where
  "sql_line_then_block = ''-- note'' @ [CHR 0x0A] @ ''/* all */ SELECT ID FROM TradeHistories''"

text \<open>
  A sample of the conversions of pandas. The missing texts are the defaults of
  \<^verbatim>\<open>read_csv\<close>. The other conversions are exact on the tables and chunks below: on the
  integers below \<open>2 ^ 53\<close> written in digits, on a column of such integers and missing
  fields, which is read as floats, and on a column with a field that is no number, no
  boolean and not missing, which is read as texts and missing cells.
\<close>

definition STR_NA_VALUES :: "string list" where
  "STR_NA_VALUES = [[], ''#N/A'', ''#N/A N/A'', ''#NA'', ''-1.#IND'', ''-1.#QNAN'', ''-NaN'',
     ''-nan'', ''1.#IND'', ''1.#QNAN'', ''<NA>'', ''N/A'', ''NA'', ''NULL'', ''NaN'', ''None'',
     ''n/a'', ''nan'', ''null'']"

definition p_sample :: pandas where
  "p_sample = \<lparr>parse_number = (\<lambda>s. case py_int s of Inl e \<Rightarrow> None | Inr n \<Rightarrow> Some (of_int n)),
     format_number = (\<lambda>x. str_int \<lfloor>x\<rfloor> @ ''.0''),
     is_na = (\<lambda>w. w \<in> set STR_NA_VALUES),
     infer_rest = (\<lambda>ws w.
        if w \<in> set STR_NA_VALUES then NA
        else if list_all (\<lambda>v. v \<in> set STR_NA_VALUES \<or> is_int64_text v) ws
        then (case str_to_int64 w of None \<Rightarrow> NA | Some k \<Rightarrow> Num (of_int k))
        else Str w),
     repr_float = (\<lambda>x. str_int \<lfloor>x\<rfloor> @ ''.0'')\<rparr>"

text \<open>Chunks as a caller of \<^verbatim>\<open>filter_chunk\<close> can build them.\<close>

definition df_sample :: dataframe where
  "df_sample = \<lparr>columns = [''magic'', ''comment''],
     rows = [[IntC 0, Str ''x''], [IntC 5, Str ''Cancelled''], [Num 5, Str '' cancelled  ''],
             [IntC 5, Str ''filled''], [Str ''abc'', Str ''filled'']]\<rparr>"

definition df_sample2 :: dataframe where
  "df_sample2 = \<lparr>columns = [''magic'', ''comment''],
     rows = [[Str ''0'', NA], [IntC 7, Str ''CANCELED''], [NA, Str ''canceled order'']]\<rparr>"

definition df_no_comment :: dataframe where
  "df_no_comment = \<lparr>columns = [''ticket'', ''magic''],
     rows = [[IntC 1, Num 0], [IntC 2, IntC 5], [Str ''cancelled'', Str ''abc''], [IntC 4, NA]]\<rparr>"

definition df_no_magic :: dataframe where
  "df_no_magic = \<lparr>columns = [''ticket'', ''comment''], rows = [[IntC 1, Str ''cancelled'']]\<rparr>"




definition t_half_ms :: datetime where
  "t_half_ms = \<lparr>year = 2023, month = 2, day = 9, hour = 8, minute = 43, second = 34,
               microsecond = 500, tzinfo = Some 0\<rparr>"


definition t_offset :: datetime where
  "t_offset = \<lparr>year = 2024, month = 3, day = 1, hour = 0, minute = 43, second = 34,
               microsecond = 999500, tzinfo = Some 3600000000\<rparr>"


section \<open>The query builder as the specification words it\<close>

text \<open>
  A text filter is populated when it is set and not empty; the other filters when they are
  set. Each populated filter gives one predicate with its parameter, in the fixed order of
  the fields; a temporal bound is bound as the encoder's result.
\<close>

definition populated_text :: "string option \<Rightarrow> bool" where
  "populated_text x = (case x of None \<Rightarrow> False | Some s \<Rightarrow> s \<noteq> [])"

definition encoded_bound :: "datetime \<Rightarrow> param" where
  "encoded_bound dt = (case datetime_to_bigint_hr (Some dt) of Inl e \<Rightarrow> NoneP | Inr r \<Rightarrow> opt_param r)"

definition spec_predicates :: "TradeQuery \<Rightarrow> (string \<times> param) list" where
  "spec_predicates q =
     (case trade_account_id q of None \<Rightarrow> [] | Some a \<Rightarrow> [(''TradeAccountID = %s'', IntP a)]) @
     (case ticket q of None \<Rightarrow> [] | Some t \<Rightarrow> [(''Ticket = %s'', IntP t)]) @
     (if populated_text (symbol q) then [(''SymbolName = %s'', StrP (the (symbol q)))] else []) @
     (case opened_from q of None \<Rightarrow> [] | Some dt \<Rightarrow> [(''OpenTime >= %s'', encoded_bound dt)]) @
     (case opened_to q of None \<Rightarrow> [] | Some dt \<Rightarrow> [(''OpenTime <= %s'', encoded_bound dt)]) @
     (case closed_from q of None \<Rightarrow> [] | Some dt \<Rightarrow> [(''CloseTime >= %s'', encoded_bound dt)]) @
     (case closed_to q of None \<Rightarrow> [] | Some dt \<Rightarrow> [(''CloseTime <= %s'', encoded_bound dt)]) @
     (if populated_text (comment_like q)
      then [(''Comment LIKE %s'', StrP (''%'' @ the (comment_like q) @ ''%''))] else [])"

definition spec_where :: "string list \<Rightarrow> string" where
  "spec_where clauses = (if clauses = [] then [] else '' WHERE '' @ join '' AND '' clauses)"

text \<open>The temporal bounds of a query that are set, and the number of its populated filters.\<close>

definition bounds :: "TradeQuery \<Rightarrow> datetime list" where
  "bounds q = concat (map (\<lambda>x. case x of None \<Rightarrow> [] | Some dt \<Rightarrow> [dt])
     [opened_from q, opened_to q, closed_from q, closed_to q])"

definition populated_count :: "TradeQuery \<Rightarrow> nat" where
  "populated_count q =
     length (filter id
       [trade_account_id q \<noteq> None, ticket q \<noteq> None, populated_text (symbol q),
        opened_from q \<noteq> None, opened_to q \<noteq> None, closed_from q \<noteq> None,
        closed_to q \<noteq> None, populated_text (comment_like q)])"

section \<open>The raw-query guard as the specification words it\<close>

text \<open>
  Leading block comments (\<^verbatim>\<open>/*\<close>, any text, \<^verbatim>\<open>*/\<close>) and line comments (\<^verbatim>\<open>--\<close> to the end
  of the line) are removed from the start of the text, repeatedly and in any order, with
  the blanks around them; the text is accepted when the six characters that follow are
  \<^verbatim>\<open>SELECT\<close> in any case.
\<close>

function spec_strip_comments :: "string \<Rightarrow> string" where
  "spec_strip_comments s =
     (if startswith (py_lstrip s) ''/*''
      then (case py_find ''*/'' (drop 2 (py_lstrip s)) of
              None \<Rightarrow> py_lstrip s
            | Some e \<Rightarrow> spec_strip_comments (drop (e + 4) (py_lstrip s)))
      else if startswith (py_lstrip s) ''--''
      then (case py_find [CHR 0x0A] (py_lstrip s) of
              None \<Rightarrow> []
            | Some nl \<Rightarrow> spec_strip_comments (drop (nl + 1) (py_lstrip s)))
      else py_lstrip s)"
  by pat_completeness auto
termination
proof (relation "measure length")
  show "wf (measure length)" by simp
next
  fix s :: string and e :: nat
  assume "startswith (py_lstrip s) ''/*''"
  then have "2 \<le> length (py_lstrip s)"
    by (cases "py_lstrip s"; cases "tl (py_lstrip s)") (auto simp: startswith_def)
  moreover have "length (py_lstrip s) \<le> length s"
    unfolding py_lstrip_def by (rule length_dropWhile_le)
  ultimately show "(drop (e + 4) (py_lstrip s), s) \<in> measure length" by simp
next
  fix s :: string and nl :: nat
  assume "startswith (py_lstrip s) ''--''"
  then have "2 \<le> length (py_lstrip s)"
    by (cases "py_lstrip s"; cases "tl (py_lstrip s)") (auto simp: startswith_def)
  moreover have "length (py_lstrip s) \<le> length s"
    unfolding py_lstrip_def by (rule length_dropWhile_le)
  ultimately show "(drop (nl + 1) (py_lstrip s), s) \<in> measure length" by simp
qed

declare spec_strip_comments.simps [simp del]

definition spec_is_select_only :: "string \<Rightarrow> bool" where
  "spec_is_select_only sql = (py_lower (take 6 (spec_strip_comments sql)) = ''select'')"

section \<open>The row filter as the specification words it\<close>

text \<open>
  Condition A: the magic value of the row parses as a number equal to 0. Condition B:
  the comment value of the row, trimmed and lower-cased, is exactly \<^verbatim>\<open>cancelled\<close> or
  \<^verbatim>\<open>canceled\<close>; it is never true when the input has no comment column. A row is dropped
  when A or B holds.
\<close>

definition spec_condition_A :: "pandas \<Rightarrow> string list \<Rightarrow> cell list \<Rightarrow> bool" where
  "spec_condition_A p cols r = (to_numeric p (cell_of cols r ''magic'') = Some 0)"

definition comment_text :: "pandas \<Rightarrow> cell \<Rightarrow> string" where
  "comment_text p c = (case astype_string p c of None \<Rightarrow> [] | Some s \<Rightarrow> s)"

definition spec_condition_B :: "pandas \<Rightarrow> string list \<Rightarrow> cell list \<Rightarrow> bool" where
  "spec_condition_B p cols r =
     (''comment'' \<in> set cols \<and>
      (let s = py_lower (py_strip (comment_text p (cell_of cols r ''comment'')))
       in s = ''cancelled'' \<or> s = ''canceled''))"

definition spec_drop :: "pandas \<Rightarrow> string list \<Rightarrow> cell list \<Rightarrow> bool" where
  "spec_drop p cols r = (spec_condition_A p cols r \<or> spec_condition_B p cols r)"


section \<open>The null inputs of the decoder as the specification words it\<close>

text \<open>
  A null value, an empty or whitespace-only text, the value \<^verbatim>\<open>"0"\<close> and the sentinel
  \<^verbatim>\<open>"19700101000000000"\<close>; an integer is taken by its decimal text.
\<close>

definition spec_null_input :: "bigint_hr option \<Rightarrow> bool" where
  "spec_null_input val =
     (case val of
        None \<Rightarrow> True
      | Some v \<Rightarrow> list_all is_space (py_str v) \<or> py_str v = ''0''
                  \<or> py_str v = ''19700101000000000'')"

section \<open>The round trips of the codec and the encoder as the specification words it\<close>





text \<open>
  The first step of the encoder: a naive datetime is taken as UTC, an aware one is
  converted. Then the millisecond field that is printed.
\<close>

definition to_utc :: "datetime \<Rightarrow> error + datetime" where
  "to_utc dt = (if tzinfo dt = None then Inr (dt\<lparr>tzinfo := Some 0\<rparr>) else astimezone_utc dt)"

definition ms_field :: "int \<Rightarrow> int" where
  "ms_field us = (if round_ms us = 1000 then 0 else round_ms us)"

text \<open>
  The encoder of the specification: the millisecond field is the sub-second component
  rounded half up, with 1000 replaced by 0, and the result is the text of the 14 date
  and time digits followed by three millisecond digits.
\<close>

definition spec_round_half_up :: "int \<Rightarrow> int" where
  "spec_round_half_up us = (us + 500) div 1000"

definition spec_encode :: "datetime \<Rightarrow> error + string" where
  "spec_encode dt =
     bind_err (to_utc dt) (\<lambda>a.
       let ms = spec_round_half_up (microsecond a);
           ms' = (if ms = 1000 then 0 else ms)
       in Inr (strftime_YmdHMS a @ zero_pad 3 ms'))"

section \<open>Properties of the text functions\<close>

lemma rstrip_prefix: "\<exists>w. t = rev (dropWhile P (rev t)) @ w"
proof -
  have "rev t = takeWhile P (rev t) @ dropWhile P (rev t)" by simp
  then have "rev (rev t) = rev (takeWhile P (rev t) @ dropWhile P (rev t))" by (rule arg_cong)
  then have "t = rev (dropWhile P (rev t)) @ rev (takeWhile P (rev t))" by (simp only: rev_rev_ident rev_append)
  then show ?thesis by (rule exI)
qed

lemma dropWhile_rev_dropWhile:
  "dropWhile P (rev (dropWhile P (rev (dropWhile P s)))) = rev (dropWhile P (rev (dropWhile P s)))"
proof -
  define t where "t = dropWhile P s"
  define u where "u = rev (dropWhile P (rev t))"
  obtain w where tw: "t = u @ w" unfolding u_def using rstrip_prefix by blast
  have "dropWhile P u = u"
  proof (cases u)
    case Nil
    then show ?thesis by simp
  next
    case (Cons a as)
    then have "t \<noteq> []" and "hd t = a" using tw by simp_all
    moreover have "t \<noteq> [] \<Longrightarrow> \<not> P (hd t)" unfolding t_def by (rule hd_dropWhile)
    ultimately have "\<not> P a" by simp
    then show ?thesis using Cons by simp
  qed
  then show ?thesis by (simp add: u_def t_def)
qed

lemma py_strip_idem: "py_strip (py_strip s) = py_strip s"
  by (simp add: py_strip_def py_rstrip_def py_lstrip_def dropWhile_rev_dropWhile)

lemma sentinel_strip:
  "is_epoch_sentinel (Some (StrV (py_strip t))) = (py_strip t = ''0'' \<or> py_strip t = ''19700101000000000'')"
  by (simp add: is_epoch_sentinel_def py_str_def py_strip_idem Let_def)

lemma decode_Some:
  "bigint_hr_to_datetime (Some v) =
     (let s = py_strip (py_str v) in
      if s = [] \<or> s = ''0'' \<or> s = ''19700101000000000'' then Inr None
      else if \<not> py_isdigit s then Inl (InvalidValue (py_str v))
      else if length s = 14 then
        (case strptime_YmdHMS s of
           Inl e \<Rightarrow> Inl e
         | Inr dt \<Rightarrow> Inr (Some (dt\<lparr>tzinfo := Some 0\<rparr>)))
      else if length s = 17 then
        (case strptime_YmdHMS (take 14 s) of
           Inl e \<Rightarrow> Inl e
         | Inr dt \<Rightarrow>
             (case py_int (drop 14 s) of
                Inl e \<Rightarrow> Inl e
              | Inr n \<Rightarrow> Inr (Some (dt\<lparr>microsecond := n * 1000, tzinfo := Some 0\<rparr>))))
      else Inl (UnsupportedLength (py_str v)))"
  unfolding bigint_hr_to_datetime_def option.case Let_def sentinel_strip by (rule refl)

lemma decode_null_iff:
  "bigint_hr_to_datetime val = Inr None \<longleftrightarrow>
     (case val of None \<Rightarrow> True
      | Some v \<Rightarrow> py_strip (py_str v) = [] \<or> py_strip (py_str v) = ''0''
                   \<or> py_strip (py_str v) = ''19700101000000000'')"
proof (cases val)
  case None
  then show ?thesis by (simp add: bigint_hr_to_datetime_def)
next
  case (Some v)
  show ?thesis unfolding Some decode_Some Let_def option.case
    by (simp split: sum.splits)
qed

lemma decode_epoch_plus_1ms:
  "bigint_hr_to_datetime (Some (StrV ''19700101000000001'')) =
     Inr (Some \<lparr>year = 1970, month = 1, day = 1, hour = 0, minute = 0, second = 0,
                microsecond = 1000, tzinfo = Some 0\<rparr>)"
  by code_simp

lemma is_ascii_digit_digit_char: "0 \<le> d \<Longrightarrow> d < 10 \<Longrightarrow> is_ascii_digit (digit_char d)"
proof -
  assume "0 \<le> d" "d < 10"
  then have "d = 0 \<or> d = 1 \<or> d = 2 \<or> d = 3 \<or> d = 4 \<or> d = 5 \<or> d = 6 \<or> d = 7 \<or> d = 8 \<or> d = 9"
    by presburger
  then show ?thesis by (auto simp: is_ascii_digit_def digit_char_def)
qed

lemma digit_val_digit_char: "0 \<le> d \<Longrightarrow> d < 10 \<Longrightarrow> digit_val (digit_char d) = d"
proof -
  assume "0 \<le> d" "d < 10"
  then have "d = 0 \<or> d = 1 \<or> d = 2 \<or> d = 3 \<or> d = 4 \<or> d = 5 \<or> d = 6 \<or> d = 7 \<or> d = 8 \<or> d = 9"
    by presburger
  then show ?thesis by (auto simp: digit_val_def digit_char_def)
qed

lemma digit_val_range: "is_ascii_digit c \<Longrightarrow> 0 \<le> digit_val c \<and> digit_val c < 10"
  by (auto simp: is_ascii_digit_def digit_val_def)

lemma digit_val_inj:
  "is_ascii_digit c \<Longrightarrow> is_ascii_digit c' \<Longrightarrow> digit_val c = digit_val c' \<Longrightarrow> c = c'"
proof -
  assume "is_ascii_digit c" "is_ascii_digit c'" "digit_val c = digit_val c'"
  then have "(of_char c :: int) = of_char c'" by (simp add: digit_val_def)
  then show "c = c'" by simp
qed

lemma int_of_digits_Nil [simp]: "int_of_digits [] = 0"
  by (simp add: int_of_digits_def)

lemma int_of_digits_snoc [simp]: "int_of_digits (s @ [c]) = 10 * int_of_digits s + digit_val c"
  by (simp add: int_of_digits_def)

lemma int_of_digits_append:
  "int_of_digits (s @ t) = int_of_digits s * 10 ^ length t + int_of_digits t"
proof (induction t rule: rev_induct)
  case Nil
  then show ?case by simp
next
  case (snoc c t)
  have "int_of_digits (s @ t @ [c]) = 10 * int_of_digits (s @ t) + digit_val c"
    using int_of_digits_snoc [of "s @ t" c] by simp
  then show ?case using snoc by (simp add: algebra_simps)
qed

lemma int_of_digits_bounds:
  "list_all is_ascii_digit s \<Longrightarrow> 0 \<le> int_of_digits s \<and> int_of_digits s < 10 ^ length s"
proof (induction s rule: rev_induct)
  case Nil
  then show ?case by simp
next
  case (snoc c s)
  then have "0 \<le> int_of_digits s" "int_of_digits s + 1 \<le> 10 ^ length s"
    and "0 \<le> digit_val c" "digit_val c < 10"
    using digit_val_range [of c] by simp_all
  then show ?case by simp
qed

lemma str_nat_digits: "0 \<le> n \<Longrightarrow> list_all is_ascii_digit (str_nat n) \<and> str_nat n \<noteq> []"
proof (induction n rule: str_nat.induct)
  case (1 n)
  show ?case
  proof (cases "n < 10")
    case True
    then show ?thesis using "1.prems" by (simp add: str_nat.simps [of n] is_ascii_digit_digit_char)
  next
    case False
    then have "0 \<le> n div 10" using "1.prems" by simp
    then have "list_all is_ascii_digit (str_nat (n div 10))" using "1.IH" False by simp
    moreover have "is_ascii_digit (digit_char (n mod 10))"
      by (rule is_ascii_digit_digit_char) simp_all
    ultimately show ?thesis using False by (simp add: str_nat.simps [of n])
  qed
qed

lemma int_of_digits_str_nat: "0 \<le> n \<Longrightarrow> int_of_digits (str_nat n) = n"
proof (induction n rule: str_nat.induct)
  case (1 n)
  show ?case
  proof (cases "n < 10")
    case True
    then show ?thesis using "1.prems"
      by (simp add: str_nat.simps [of n] int_of_digits_def digit_val_digit_char)
  next
    case False
    then have "0 \<le> n div 10" using "1.prems" by simp
    then have "int_of_digits (str_nat (n div 10)) = n div 10" using "1.IH" False by simp
    moreover have "digit_val (digit_char (n mod 10)) = n mod 10"
      by (rule digit_val_digit_char) simp_all
    ultimately show ?thesis using False by (simp add: str_nat.simps [of n])
  qed
qed


lemma int_of_digits_replicate_zero [simp]: "int_of_digits (replicate k (CHR ''0'')) = 0"
proof (induction k)
  case 0
  then show ?case by simp
next
  case (Suc k)
  have "replicate (Suc k) (CHR ''0'') = replicate k (CHR ''0'') @ [CHR ''0'']"
    by (simp add: replicate_append_same)
  then show ?case using Suc by (simp only: int_of_digits_snoc) (simp add: digit_val_def)
qed

lemma int_of_digits_zero_pad: "0 \<le> n \<Longrightarrow> int_of_digits (zero_pad w n) = n"
  by (simp add: zero_pad_def int_of_digits_append int_of_digits_str_nat)

lemma zero_pad_digits: "0 \<le> n \<Longrightarrow> list_all is_ascii_digit (zero_pad w n)"
  using str_nat_digits [of n] by (auto simp: zero_pad_def list_all_iff is_ascii_digit_def)

lemma length_str_nat: "0 \<le> n \<Longrightarrow> n < 10 ^ w \<Longrightarrow> 0 < w \<Longrightarrow> length (str_nat n) \<le> w"
proof (induction n arbitrary: w rule: str_nat.induct)
  case (1 n)
  show ?case
  proof (cases "n < 10")
    case True
    then show ?thesis using "1.prems" by (simp add: str_nat.simps [of n])
  next
    case False
    obtain w' where w: "w = Suc w'" using "1.prems" by (cases w) auto
    have "w' \<noteq> 0" using False "1.prems" w by (cases w') auto
    moreover have "n div 10 < 10 ^ w'" using "1.prems" w by simp
    moreover have "0 \<le> n div 10" using "1.prems" by simp
    ultimately have "length (str_nat (n div 10)) \<le> w'" using "1.IH" [of w'] False by simp
    then show ?thesis using False w by (simp add: str_nat.simps [of n])
  qed
qed

lemma length_zero_pad: "0 \<le> n \<Longrightarrow> n < 10 ^ w \<Longrightarrow> 0 < w \<Longrightarrow> length (zero_pad w n) = w"
  using length_str_nat [of n w] by (simp add: zero_pad_def)

lemma digits_inj:
  "length s = length t \<Longrightarrow> list_all is_ascii_digit s \<Longrightarrow> list_all is_ascii_digit t \<Longrightarrow>
   int_of_digits s = int_of_digits t \<Longrightarrow> s = t"
proof (induction s arbitrary: t rule: rev_induct)
  case Nil
  then show ?case by simp
next
  case (snoc c s)
  then obtain t' c' where t: "t = t' @ [c']" by (cases t rule: rev_cases) auto
  have len: "length s = length t'" using snoc.prems t by simp
  have ds: "list_all is_ascii_digit s" "is_ascii_digit c"
    and dt: "list_all is_ascii_digit t'" "is_ascii_digit c'"
    using snoc.prems t by simp_all
  have eq: "10 * int_of_digits s + digit_val c = 10 * int_of_digits t' + digit_val c'"
    using snoc.prems t by simp
  have r: "0 \<le> digit_val c" "digit_val c < 10" "0 \<le> digit_val c'" "digit_val c' < 10"
    using digit_val_range ds dt by simp_all
  have "int_of_digits s = int_of_digits t'" and v: "digit_val c = digit_val c'"
    using eq r by presburger+
  then have "s = t'" using snoc.IH [OF len ds(1) dt(1)] by simp
  moreover have "c = c'" using digit_val_inj [OF ds(2) dt(2) v] .
  ultimately show ?case using t by simp
qed

lemma zero_pad_int_of_digits:
  assumes "list_all is_ascii_digit s" and "s \<noteq> []"
  shows "zero_pad (length s) (int_of_digits s) = s"
proof -
  have b: "0 \<le> int_of_digits s" "int_of_digits s < 10 ^ length s"
    using int_of_digits_bounds [OF assms(1)] by simp_all
  have l: "0 < length s" using assms(2) by simp
  show ?thesis
    by (rule digits_inj)
      (simp_all add: length_zero_pad [OF b l] zero_pad_digits [OF b(1)] assms(1)
        int_of_digits_zero_pad [OF b(1)])
qed

lemma str_nat_int_of_digits:
  assumes "list_all is_ascii_digit s" and "s \<noteq> []" and "hd s \<noteq> CHR ''0''"
  shows "str_nat (int_of_digits s) = s"
proof -
  let ?n = "int_of_digits s"
  have z: "replicate (length s - length (str_nat ?n)) (CHR ''0'') @ str_nat ?n = s"
    using zero_pad_int_of_digits [OF assms(1,2)] by (simp add: zero_pad_def)
  have "length s - length (str_nat ?n) = 0"
  proof (rule ccontr)
    assume "length s - length (str_nat ?n) \<noteq> 0"
    then obtain k where "length s - length (str_nat ?n) = Suc k" by (cases "length s - length (str_nat ?n)") auto
    then have "hd s = CHR ''0''" using z by (metis hd_append2 list.sel(1) list.distinct(1) replicate_Suc)
    then show False using assms(3) by simp
  qed
  then show ?thesis using z by simp
qed

lemma hd_zero_pad:
  assumes "10 ^ (w - 1) \<le> n" and "n < 10 ^ w" and "0 < w"
  shows "hd (zero_pad w n) \<noteq> CHR ''0''"
proof
  assume h: "hd (zero_pad w n) = CHR ''0''"
  have "(0::int) \<le> 10 ^ (w - 1)" by simp
  then have n0: "0 \<le> n" using assms(1) by linarith
  have len: "length (zero_pad w n) = w" using length_zero_pad [OF n0 assms(2,3)] .
  then obtain c r where s: "zero_pad w n = c # r" using assms(3) by (cases "zero_pad w n") auto
  have c: "c = CHR ''0''" using h s by simp
  have lr: "length r = w - 1" using len s by simp
  have "list_all is_ascii_digit r" using zero_pad_digits [OF n0, of w] s by simp
  then have "int_of_digits r < 10 ^ (w - 1)" using int_of_digits_bounds [of r] lr by simp
  moreover have "int_of_digits (zero_pad w n) = int_of_digits r"
    using int_of_digits_append [of "[c]" r] s c by (simp add: int_of_digits_def digit_val_def)
  ultimately show False using int_of_digits_zero_pad [OF n0, of w] assms(1) by simp
qed

lemma split_1000:
  obtains q r :: int where "us = 1000 * q + r" and "0 \<le> r" and "r < 1000"
    and "us div 1000 = q" and "us mod 1000 = r"
proof
  show "us = 1000 * (us div 1000) + us mod 1000" by simp
  show "0 \<le> us mod 1000" "us mod 1000 < 1000" by simp_all
qed simp_all

lemma round_ms_cases:
  assumes "us = 1000 * q + r" and "0 \<le> r" and "r < 1000"
  shows "round_ms us = (if r < 500 then q else if r > 500 then q + 1 else if even q then q else q + 1)"
proof -
  have "us div 1000 = q" using assms by (rule int_div_pos_eq)
  moreover have "us mod 1000 = r" using assms by (rule int_mod_pos_eq)
  ultimately show ?thesis by (simp add: round_ms_def)
qed

lemma half_up_cases:
  assumes "us = 1000 * q + r" and "0 \<le> r" and "r < 1000"
  shows "spec_round_half_up us = (if r < 500 then q else q + 1)"
proof (cases "r < 500")
  case True
  have e: "us + 500 = 1000 * q + (r + 500)" using assms by simp
  have "(us + 500) div 1000 = q" by (rule int_div_pos_eq [OF e]) (use assms True in simp_all)
  then show ?thesis using True by (simp add: spec_round_half_up_def)
next
  case False
  have e: "us + 500 = 1000 * (q + 1) + (r - 500)" using assms by simp
  have "(us + 500) div 1000 = q + 1" by (rule int_div_pos_eq [OF e]) (use assms False in simp_all)
  then show ?thesis using False by (simp add: spec_round_half_up_def)
qed

lemma mod_2000_cases:
  fixes us q r :: int
  assumes "us = 1000 * q + r" and "0 \<le> r" and "r < 1000"
  shows "us mod 2000 = 500 \<longleftrightarrow> r = 500 \<and> even q"
proof (cases "even q")
  case True
  then obtain h where h: "q = 2 * h" by (auto elim: evenE)
  have e: "us = 2000 * h + r" using assms h by simp
  have "us mod 2000 = r" by (rule int_mod_pos_eq [OF e]) (use assms in simp_all)
  then show ?thesis using True by simp
next
  case False
  then obtain h where h: "q = 2 * h + 1" by (auto elim: oddE)
  have e: "us = 2000 * h + (r + 1000)" using assms h by simp
  have "us mod 2000 = r + 1000" by (rule int_mod_pos_eq [OF e]) (use assms in simp_all)
  then show ?thesis using False assms by simp
qed

lemma round_ms_half_even:
  "round_ms us = (if us mod 2000 = 500 then spec_round_half_up us - 1 else spec_round_half_up us)"
proof -
  obtain q r where d: "us = 1000 * q + r" "0 \<le> r" "r < 1000" by (rule split_1000)
  show ?thesis
    unfolding round_ms_cases [OF d] half_up_cases [OF d] mod_2000_cases [OF d] by auto
qed

lemma round_ms_bounds:
  assumes "0 \<le> us" and "us \<le> 999999"
  shows "0 \<le> round_ms us \<and> round_ms us \<le> 1000"
proof -
  obtain q r where d: "us = 1000 * q + r" "0 \<le> r" "r < 1000" by (rule split_1000)
  have "0 \<le> q" "q \<le> 999" using d assms by linarith+
  then show ?thesis unfolding round_ms_cases [OF d] by auto
qed

lemma round_ms_1000_iff:
  assumes "0 \<le> us" and "us \<le> 999999"
  shows "round_ms us = 1000 \<longleftrightarrow> 999500 \<le> us"
proof -
  obtain q r where d: "us = 1000 * q + r" "0 \<le> r" "r < 1000" by (rule split_1000)
  have q: "0 \<le> q" "q \<le> 999" using d assms by linarith+
  show ?thesis
  proof (cases "q = 999")
    case True
    then show ?thesis unfolding round_ms_cases [OF d] using d by auto
  next
    case False
    then have "q \<le> 998" using q by simp
    then show ?thesis unfolding round_ms_cases [OF d] using d q by auto
  qed
qed

lemma ms_field_bounds: "0 \<le> us \<Longrightarrow> us \<le> 999999 \<Longrightarrow> 0 \<le> ms_field us \<and> ms_field us \<le> 999"
  using round_ms_bounds [of us] by (auto simp: ms_field_def)


lemma days_in_month_le: "days_in_month y m \<le> 31"
  by (simp add: days_in_month_def)

lemma valid_ranges:
  assumes "valid_datetime a"
  shows "0 \<le> year a" "year a < 10 ^ 4" "0 \<le> month a" "month a < 10 ^ 2"
    "0 \<le> day a" "day a < 10 ^ 2" "0 \<le> hour a" "hour a < 10 ^ 2"
    "0 \<le> minute a" "minute a < 10 ^ 2" "0 \<le> second a" "second a < 10 ^ 2"
    "0 \<le> microsecond a" "microsecond a \<le> 999999"
  using assms days_in_month_le [of "year a" "month a"] by (auto simp: valid_datetime_def)

lemma strftime_microsecond [simp]: "strftime_YmdHMS (a\<lparr>microsecond := x\<rparr>) = strftime_YmdHMS a"
  by (simp add: strftime_YmdHMS_def)

lemma strftime_tzinfo [simp]: "strftime_YmdHMS (a\<lparr>tzinfo := x\<rparr>) = strftime_YmdHMS a"
  by (simp add: strftime_YmdHMS_def)

lemma strftime_length:
  assumes "valid_datetime a"
  shows "length (strftime_YmdHMS a) = 14"
  using valid_ranges [OF assms] by (simp add: strftime_YmdHMS_def length_zero_pad)

lemma strftime_digits:
  assumes "valid_datetime a"
  shows "list_all is_ascii_digit (strftime_YmdHMS a)"
  using valid_ranges [OF assms] by (simp add: strftime_YmdHMS_def zero_pad_digits)


lemma int_of_strftime:
  assumes "valid_datetime a" and "0 \<le> m" and "m < 1000"
  shows "int_of_digits (strftime_YmdHMS a @ zero_pad 3 m) =
     year a * 10 ^ 13 + month a * 10 ^ 11 + day a * 10 ^ 9 + hour a * 10 ^ 7
       + minute a * 10 ^ 5 + second a * 10 ^ 3 + m"
proof -
  have l3: "length (zero_pad 3 m) = 3" using assms by (simp add: length_zero_pad)
  show ?thesis
    using valid_ranges [OF assms(1)] assms(2,3) l3
    by (simp add: strftime_YmdHMS_def int_of_digits_append int_of_digits_zero_pad length_zero_pad)
qed

lemma encode_unfold:
  "datetime_to_bigint_hr (Some t) =
     (case to_utc t of
        Inl e \<Rightarrow> Inl e
      | Inr a \<Rightarrow>
          (case py_int (strftime_YmdHMS a @ zero_pad 3 (ms_field (microsecond a))) of
             Inl e \<Rightarrow> Inl e
           | Inr n \<Rightarrow> Inr (Some n)))"
  by (simp add: datetime_to_bigint_hr_def to_utc_def ms_field_def Let_def split: sum.splits)

lemma encode_utc:
  assumes "to_utc t = Inr a" and "valid_datetime a"
  shows "datetime_to_bigint_hr (Some t) =
     Inr (Some (int_of_digits (strftime_YmdHMS a @ zero_pad 3 (ms_field (microsecond a)))))"
proof -
  have "list_all is_ascii_digit (strftime_YmdHMS a @ zero_pad 3 (ms_field (microsecond a)))"
    using strftime_digits [OF assms(2)] valid_ranges(13,14) [OF assms(2)]
      ms_field_bounds [of "microsecond a"]
    by (simp add: zero_pad_digits)
  moreover have "strftime_YmdHMS a @ zero_pad 3 (ms_field (microsecond a)) \<noteq> []"
    using strftime_length [OF assms(2)] by auto
  ultimately show ?thesis by (simp add: encode_unfold assms(1) py_int_def)
qed

lemma encode_error: "to_utc t = Inl e \<Longrightarrow> datetime_to_bigint_hr (Some t) = Inl e"
  by (simp add: encode_unfold)

lemma to_utc_utc:
  "tzinfo t = None \<or> tzinfo t = Some 0 \<Longrightarrow> to_utc t = Inr (t\<lparr>tzinfo := Some 0\<rparr>)"
  by (auto simp: to_utc_def astimezone_utc_def)

lemma valid_tz_update: "valid_datetime t \<Longrightarrow> valid_datetime (t\<lparr>tzinfo := Some 0\<rparr>)"
  by (simp add: valid_datetime_def)

lemma str_int_encoded:
  assumes "valid_datetime a" and "1000 \<le> year a" and "0 \<le> m" and "m < 1000"
  shows "str_int (int_of_digits (strftime_YmdHMS a @ zero_pad 3 m)) = strftime_YmdHMS a @ zero_pad 3 m"
proof -
  let ?s = "strftime_YmdHMS a @ zero_pad 3 m"
  have d: "list_all is_ascii_digit ?s"
    using strftime_digits [OF assms(1)] assms(3) by (simp add: zero_pad_digits)
  have ne: "?s \<noteq> []" using strftime_length [OF assms(1)] by auto
  have y: "year a < 10 ^ 4" using valid_ranges(2) [OF assms(1)] .
  have "hd (zero_pad 4 (year a)) \<noteq> CHR ''0''"
    by (rule hd_zero_pad) (use assms(2) y in simp_all)
  moreover have "zero_pad 4 (year a) \<noteq> []"
    using length_zero_pad [of "year a" 4] assms(2) y by auto
  ultimately have h: "hd ?s \<noteq> CHR ''0''" by (simp add: strftime_YmdHMS_def)
  have "0 \<le> int_of_digits ?s" using int_of_digits_bounds [OF d] by simp
  then show ?thesis using str_nat_int_of_digits [OF d ne h] by (simp add: str_int_def)
qed



















lemma divmod_pos:
  fixes n k :: int
  assumes "0 < k"
  obtains q r where "n = k * q + r" and "0 \<le> r" and "r < k" and "n div k = q" and "n mod k = r"
proof
  show "n = k * (n div k) + n mod k" by simp
  show "0 \<le> n mod k" "n mod k < k" using assms by simp_all
qed simp_all

lemma is_leap_decomposed:
  fixes a b c e :: int
  assumes "0 \<le> b" "b \<le> 3" "0 \<le> c" "c \<le> 24" "0 \<le> e" "e \<le> 3"
  shows "is_leap (a * 400 + 1 + b * 100 + c * 4 + e) \<longleftrightarrow> e = 3 \<and> (c \<noteq> 24 \<or> b = 3)"
proof -
  let ?y = "a * 400 + 1 + b * 100 + c * 4 + e"
  have m4: "?y mod 4 = (if e = 3 then 0 else e + 1)"
  proof (cases "e = 3")
    case True
    have "?y = 4 * (a * 100 + b * 25 + c + 1) + 0" using True by simp
    then have "?y mod 4 = 0" by (rule int_mod_pos_eq) simp_all
    then show ?thesis using True by simp
  next
    case False
    have "?y = 4 * (a * 100 + b * 25 + c) + (e + 1)" by simp
    then have "?y mod 4 = e + 1" by (rule int_mod_pos_eq) (use assms False in simp_all)
    then show ?thesis using False by simp
  qed
  have m100: "?y mod 100 = (if c = 24 \<and> e = 3 then 0 else c * 4 + e + 1)"
  proof (cases "c = 24 \<and> e = 3")
    case True
    have "?y = 100 * (a * 4 + b + 1) + 0" using True by simp
    then have "?y mod 100 = 0" by (rule int_mod_pos_eq) simp_all
    then show ?thesis using True by simp
  next
    case False
    have "?y = 100 * (a * 4 + b) + (c * 4 + e + 1)" by simp
    then have "?y mod 100 = c * 4 + e + 1"
      by (rule int_mod_pos_eq) (use assms False in auto)
    then show ?thesis using False by simp
  qed
  have m400: "?y mod 400 = (if b = 3 \<and> c = 24 \<and> e = 3 then 0 else b * 100 + c * 4 + e + 1)"
  proof (cases "b = 3 \<and> c = 24 \<and> e = 3")
    case True
    have "?y = 400 * (a + 1) + 0" using True by simp
    then have "?y mod 400 = 0" by (rule int_mod_pos_eq) simp_all
    then show ?thesis using True by simp
  next
    case False
    have "?y = 400 * a + (b * 100 + c * 4 + e + 1)" by simp
    then have "?y mod 400 = b * 100 + c * 4 + e + 1"
      by (rule int_mod_pos_eq) (use assms False in auto)
    then show ?thesis using False by simp
  qed
  show ?thesis unfolding is_leap_def m4 m100 m400 using assms by auto
qed

lemma month_day_valid:
  fixes n :: int
  assumes "0 \<le> n" and "n \<le> 364"
    and "m = (n + 50) div 32"
    and "pre = DAYS_BEFORE_MONTH ! nat m + (if m > 2 \<and> is_leap y then 1 else 0)"
    and "pre' = pre - (DAYS_IN_MONTH ! nat (m - 1) + (if m - 1 = 2 \<and> is_leap y then 1 else 0))"
  shows "if pre > n
         then 1 \<le> m - 1 \<and> m - 1 \<le> 12 \<and> 1 \<le> n - pre' + 1 \<and> n - pre' + 1 \<le> days_in_month y (m - 1)
         else 1 \<le> m \<and> m \<le> 12 \<and> 1 \<le> n - pre + 1 \<and> n - pre + 1 \<le> days_in_month y m"
proof -
  obtain q k where d: "n + 50 = 32 * q + k" "0 \<le> k" "k < 32" "(n + 50) div 32 = q"
    using divmod_pos [of 32 "n + 50"] by auto
  have mq: "m = q" using assms(3) d(4) by simp
  have "1 \<le> m" "m \<le> 12" using d assms(1,2) mq by linarith+
  then have "m = 1 \<or> m = 2 \<or> m = 3 \<or> m = 4 \<or> m = 5 \<or> m = 6 \<or> m = 7 \<or> m = 8
    \<or> m = 9 \<or> m = 10 \<or> m = 11 \<or> m = 12" by presburger
  then consider "m = 1" | "m = 2" | "m = 3" | "m = 4" | "m = 5" | "m = 6" | "m = 7" | "m = 8"
    | "m = 9" | "m = 10" | "m = 11" | "m = 12" by blast
  then show ?thesis
  proof cases
    case 1
    then show ?thesis using d mq assms(1,2,4,5)
      by (simp add: DAYS_BEFORE_MONTH_def DAYS_IN_MONTH_def days_in_month_def)
  next
    case 2
    then show ?thesis using d mq assms(1,2,4,5)
      by (simp add: DAYS_BEFORE_MONTH_def DAYS_IN_MONTH_def days_in_month_def)
  next
    case 3
    then show ?thesis using d mq assms(1,2,4,5)
      by (simp add: DAYS_BEFORE_MONTH_def DAYS_IN_MONTH_def days_in_month_def)
  next
    case 4
    then show ?thesis using d mq assms(1,2,4,5)
      by (simp add: DAYS_BEFORE_MONTH_def DAYS_IN_MONTH_def days_in_month_def)
  next
    case 5
    then show ?thesis using d mq assms(1,2,4,5)
      by (simp add: DAYS_BEFORE_MONTH_def DAYS_IN_MONTH_def days_in_month_def)
  next
    case 6
    then show ?thesis using d mq assms(1,2,4,5)
      by (simp add: DAYS_BEFORE_MONTH_def DAYS_IN_MONTH_def days_in_month_def)
  next
    case 7
    then show ?thesis using d mq assms(1,2,4,5)
      by (simp add: DAYS_BEFORE_MONTH_def DAYS_IN_MONTH_def days_in_month_def)
  next
    case 8
    then show ?thesis using d mq assms(1,2,4,5)
      by (simp add: DAYS_BEFORE_MONTH_def DAYS_IN_MONTH_def days_in_month_def)
  next
    case 9
    then show ?thesis using d mq assms(1,2,4,5)
      by (simp add: DAYS_BEFORE_MONTH_def DAYS_IN_MONTH_def days_in_month_def)
  next
    case 10
    then show ?thesis using d mq assms(1,2,4,5)
      by (simp add: DAYS_BEFORE_MONTH_def DAYS_IN_MONTH_def days_in_month_def)
  next
    case 11
    then show ?thesis using d mq assms(1,2,4,5)
      by (simp add: DAYS_BEFORE_MONTH_def DAYS_IN_MONTH_def days_in_month_def)
  next
    case 12
    then show ?thesis using d mq assms(1,2,4,5)
      by (simp add: DAYS_BEFORE_MONTH_def DAYS_IN_MONTH_def days_in_month_def)
  qed
qed

lemma ord2ymd_last_day:
  assumes "(n - 1) div 146097 = a" "(n - 1) mod 146097 = r1" "r1 div 36524 = b" "r1 mod 36524 = r2"
    "r2 div 1461 = c" "r2 mod 1461 = r3" "r3 div 365 = e" "r3 mod 365 = r4" "e = 4 \<or> b = 4"
  shows "ord2ymd n = (a * 400 + 1 + b * 100 + c * 4 + e - 1, 12, 31)"
  using assms(9) unfolding ord2ymd_def Let_def assms(1-8) by simp

lemma year_bound_A:
  fixes a b c e r4 n :: int
  assumes "n - 1 = 146097 * a + 36524 * b + 1461 * c + 365 * e + r4" "n \<le> 3652059"
    "0 \<le> a" "0 \<le> b" "0 \<le> c" "c \<le> 24" "0 \<le> e" "e \<le> 4" "b \<le> 4" "0 \<le> r4"
  shows "a * 400 + 1 + b * 100 + c * 4 + e - 1 \<le> 9999"
  using assms by linarith

lemma year_bound_B:
  fixes a b c e r4 n :: int
  assumes "n - 1 = 146097 * a + 36524 * b + 1461 * c + 365 * e + r4" "n \<le> 3652059"
    "0 \<le> a" "0 \<le> b" "0 \<le> c" "c \<le> 24" "0 \<le> e" "e \<le> 3" "b \<le> 3" "0 \<le> r4"
  shows "a * 400 + 1 + b * 100 + c * 4 + e \<le> 9999"
  using assms by linarith

lemma ord2ymd_other:
  assumes "(n - 1) div 146097 = a" "(n - 1) mod 146097 = r1" "r1 div 36524 = b" "r1 mod 36524 = r2"
    "r2 div 1461 = c" "r2 mod 1461 = r3" "r3 div 365 = e" "r3 mod 365 = r4"
    and "\<not> (e = 4 \<or> b = 4)"
    and "is_leap (a * 400 + 1 + b * 100 + c * 4 + e) \<longleftrightarrow> e = 3 \<and> (c \<noteq> 24 \<or> b = 3)"
    and "y = a * 400 + 1 + b * 100 + c * 4 + e"
    and "m = (r4 + 50) div 32"
    and "pre = DAYS_BEFORE_MONTH ! nat m + (if m > 2 \<and> is_leap y then 1 else 0)"
    and "pre' = pre - (DAYS_IN_MONTH ! nat (m - 1) + (if m - 1 = 2 \<and> is_leap y then 1 else 0))"
  shows "ord2ymd n = (if pre > r4 then (y, m - 1, r4 - pre' + 1) else (y, m, r4 - pre + 1))"
  unfolding ord2ymd_def Let_def assms(1-8) assms(14) assms(13) assms(12) assms(11) assms(10)
  using assms(9) by simp

lemma ord2ymd_valid:
  assumes "1 \<le> n" and "n \<le> 3652059"
  shows "case ord2ymd n of (y, m, d) \<Rightarrow>
           1 \<le> y \<and> y \<le> 9999 \<and> 1 \<le> m \<and> m \<le> 12 \<and> 1 \<le> d \<and> d \<le> days_in_month y m"
proof -
  obtain a r1 where A: "n - 1 = 146097 * a + r1" "0 \<le> r1" "r1 < 146097"
      "(n - 1) div 146097 = a" "(n - 1) mod 146097 = r1"
    using divmod_pos [of 146097 "n - 1"] by auto
  obtain b r2 where B: "r1 = 36524 * b + r2" "0 \<le> r2" "r2 < 36524"
      "r1 div 36524 = b" "r1 mod 36524 = r2"
    using divmod_pos [of 36524 r1] by auto
  obtain c r3 where C: "r2 = 1461 * c + r3" "0 \<le> r3" "r3 < 1461"
      "r2 div 1461 = c" "r2 mod 1461 = r3"
    using divmod_pos [of 1461 r2] by auto
  obtain e r4 where E: "r3 = 365 * e + r4" "0 \<le> r4" "r4 < 365"
      "r3 div 365 = e" "r3 mod 365 = r4"
    using divmod_pos [of 365 r3] by auto
  have ra: "0 \<le> a" using A assms by linarith
  have rb: "0 \<le> b" "b \<le> 4" using A B by linarith+
  have rc: "0 \<le> c" "c \<le> 24" using B C by linarith+
  have re: "0 \<le> e" "e \<le> 4" using C E by linarith+
  define y where "y = a * 400 + 1 + b * 100 + c * 4 + e"
  have n: "n - 1 = 146097 * a + 36524 * b + 1461 * c + 365 * e + r4"
    using A(1) B(1) C(1) E(1) by linarith
  have y1: "1 \<le> y" using ra rb(1) rc(1) re(1) unfolding y_def by linarith
  show ?thesis
  proof (cases "e = 4 \<or> b = 4")
    case True
    have o: "ord2ymd n = (y - 1, 12, 31)"
      unfolding y_def using A(4,5) B(4,5) C(4,5) E(4,5) True by (rule ord2ymd_last_day)
    have "y - 1 \<le> 9999"
      unfolding y_def using n assms(2) ra rb(1) rc re rb(2) E(2) by (rule year_bound_A)
    moreover have "1 \<le> y - 1" using True ra rb(1) rc(1) re(1) unfolding y_def by linarith
    ultimately show ?thesis unfolding o by (simp add: days_in_month_def)
  next
    case False
    then have e3: "e \<le> 3" and b3: "b \<le> 3" using re rb by linarith+
    have leap: "is_leap (a * 400 + 1 + b * 100 + c * 4 + e) \<longleftrightarrow> e = 3 \<and> (c \<noteq> 24 \<or> b = 3)"
      using rb(1) b3 rc re(1) e3 by (rule is_leap_decomposed)
    define m where "m = (r4 + 50) div 32"
    define pre where "pre = DAYS_BEFORE_MONTH ! nat m + (if m > 2 \<and> is_leap y then 1 else 0)"
    define pre' where
      "pre' = pre - (DAYS_IN_MONTH ! nat (m - 1) + (if m - 1 = 2 \<and> is_leap y then 1 else 0))"
    have o: "ord2ymd n = (if pre > r4 then (y, m - 1, r4 - pre' + 1) else (y, m, r4 - pre + 1))"
      using A(4,5) B(4,5) C(4,5) E(4,5) False leap y_def m_def pre_def pre'_def
      by (rule ord2ymd_other)
    have r4: "r4 \<le> 364" using E(3) by simp
    note md = month_day_valid [OF E(2) r4 m_def pre_def pre'_def]
    have y9: "y \<le> 9999"
      unfolding y_def using n assms(2) ra rb(1) rc re(1) e3 b3 E(2) by (rule year_bound_B)
    show ?thesis
    proof (cases "pre > r4")
      case True
      then show ?thesis unfolding o using md y1 y9 by simp
    next
      case False
      then show ?thesis unfolding o using md y1 y9 by simp
    qed
  qed
qed

lemma clock_fields:
  fixes rest :: int
  assumes "0 \<le> rest" and "rest < 86400000000"
  shows "0 \<le> rest div 1000000 div 3600 \<and> rest div 1000000 div 3600 \<le> 23
       \<and> 0 \<le> rest div 1000000 mod 3600 div 60 \<and> rest div 1000000 mod 3600 div 60 \<le> 59
       \<and> 0 \<le> rest div 1000000 mod 60 \<and> rest div 1000000 mod 60 \<le> 59
       \<and> 0 \<le> rest mod 1000000 \<and> rest mod 1000000 \<le> 999999"
proof -
  obtain s u where S: "rest = 1000000 * s + u" "0 \<le> u" "u < 1000000"
      "rest div 1000000 = s" "rest mod 1000000 = u"
    using divmod_pos [of 1000000 rest] by auto
  obtain h r where H: "s = 3600 * h + r" "0 \<le> r" "r < 3600" "s div 3600 = h" "s mod 3600 = r"
    using divmod_pos [of 3600 s] by auto
  obtain mi r' where M: "r = 60 * mi + r'" "0 \<le> r'" "r' < 60" "r div 60 = mi"
    using divmod_pos [of 60 r] by auto
  have s: "0 \<le> s" "s < 86400" using S assms by linarith+
  have h: "0 \<le> h" "h \<le> 23" using H s by linarith+
  have mi: "0 \<le> mi" "mi \<le> 59" using M H by linarith+
  have "0 \<le> s mod 60" "s mod 60 < 60" by simp_all
  then show ?thesis unfolding S(4,5) H(4,5) M(4) using h mi S(2,3) by simp
qed

lemma astimezone_utc_valid:
  assumes "valid_datetime dt"
  shows "case astimezone_utc dt of
           Inl e \<Rightarrow> e = OverflowError
         | Inr a \<Rightarrow> valid_datetime a \<and> tzinfo a = Some 0"
proof (cases "tzinfo dt")
  case None
  then show ?thesis using assms by (simp add: astimezone_utc_def valid_datetime_def)
next
  case (Some off)
  show ?thesis
  proof (cases "off = 0")
    case True
    then show ?thesis using assms Some by (simp add: astimezone_utc_def)
  next
    case False
    define total where "total = (ymd2ord (year dt) (month dt) (day dt) * 86400
        + hour dt * 3600 + minute dt * 60 + second dt) * 1000000 + microsecond dt - off"
    define days where "days = total div 86400000000"
    define rest where "rest = total mod 86400000000"
    have r: "0 \<le> rest" "rest < 86400000000" by (simp_all add: rest_def)
    note cf = clock_fields [OF r]
    have eq: "astimezone_utc dt =
        (if 0 < days \<and> days \<le> 3652059
         then (case ord2ymd days of (y, m, d) \<Rightarrow>
                 Inr \<lparr>year = y, month = m, day = d, hour = rest div 1000000 div 3600,
                      minute = rest div 1000000 mod 3600 div 60, second = rest div 1000000 mod 60,
                      microsecond = rest mod 1000000, tzinfo = Some 0\<rparr>)
         else Inl OverflowError)"
      using Some False by (simp add: astimezone_utc_def Let_def total_def days_def rest_def)
    show ?thesis
    proof (cases "0 < days \<and> days \<le> 3652059")
      case True
      then have "1 \<le> days" "days \<le> 3652059" by simp_all
      then have v: "case ord2ymd days of (y, m, d) \<Rightarrow>
           1 \<le> y \<and> y \<le> 9999 \<and> 1 \<le> m \<and> m \<le> 12 \<and> 1 \<le> d \<and> d \<le> days_in_month y m"
        by (rule ord2ymd_valid)
      obtain y m d where o: "ord2ymd days = (y, m, d)" by (cases "ord2ymd days") auto
      show ?thesis unfolding eq using True v cf by (simp add: o valid_datetime_def)
    next
      case False
      then have "astimezone_utc dt = Inl OverflowError" unfolding eq by (rule if_not_P)
      then show ?thesis by simp
    qed
  qed
qed

lemma to_utc_valid:
  assumes "valid_datetime t"
  shows "case to_utc t of
           Inl e \<Rightarrow> e = OverflowError
         | Inr a \<Rightarrow> valid_datetime a \<and> tzinfo a = Some 0"
proof (cases "tzinfo t = None")
  case True
  then show ?thesis using assms by (simp add: to_utc_def valid_datetime_def)
next
  case False
  then have "to_utc t = astimezone_utc t" unfolding to_utc_def by (rule if_not_P)
  then show ?thesis using astimezone_utc_valid [OF assms] by simp
qed

text \<open>
  Claim C3, as stated, fails: the decoder strips the text before it compares it, so a
  \<^verbatim>\<open>0\<close> or a sentinel with blanks around it also decodes to \<open>None\<close>, and such a text is
  neither whitespace-only, nor the value \<^verbatim>\<open>"0"\<close>, nor the sentinel.
\<close>

theorem decode_null_counterexample:
  "bigint_hr_to_datetime (Some (StrV '' 0 '')) = Inr None
   \<and> \<not> spec_null_input (Some (StrV '' 0 ''))
   \<and> bigint_hr_to_datetime (Some (StrV '' 19700101000000000'')) = Inr None
   \<and> \<not> spec_null_input (Some (StrV '' 19700101000000000''))"
proof -
  have e1: "py_strip (py_str (StrV '' 0 '')) = ''0''" by code_simp
  have e2: "py_strip (py_str (StrV '' 19700101000000000'')) = ''19700101000000000''"
    by code_simp
  have a: "bigint_hr_to_datetime (Some (StrV '' 0 '')) = Inr None"
    unfolding decode_null_iff by (simp add: e1)
  have b: "\<not> spec_null_input (Some (StrV '' 0 ''))" by code_simp
  have c: "bigint_hr_to_datetime (Some (StrV '' 19700101000000000'')) = Inr None"
    unfolding decode_null_iff by (simp add: e2)
  have d: "\<not> spec_null_input (Some (StrV '' 19700101000000000''))" by code_simp
  show ?thesis using a b c d by (intro conjI)
qed

text \<open>
  Claim C3, amended. The decoder returns \<open>None\<close> exactly when its argument is \<open>None\<close> or
  when the text it reads, \<^verbatim>\<open>str(value)\<close> with the blanks at both ends removed, is empty
  (an empty or whitespace-only text), is \<^verbatim>\<open>"0"\<close> or is the sentinel
  \<^verbatim>\<open>"19700101000000000"\<close>; and the text \<^verbatim>\<open>"19700101000000001"\<close> decodes to the UTC
  instant one millisecond after the epoch.
\<close>

theorem decode_null_exactly:
  "(bigint_hr_to_datetime val = Inr None \<longleftrightarrow>
      (case val of
         None \<Rightarrow> True
       | Some v \<Rightarrow> py_strip (py_str v) \<in> {[], ''0'', ''19700101000000000''}))
   \<and> bigint_hr_to_datetime (Some (StrV ''19700101000000001'')) =
       Inr (Some \<lparr>year = 1970, month = 1, day = 1, hour = 0, minute = 0, second = 0,
                  microsecond = 1000, tzinfo = Some 0\<rparr>)"
proof
  show "bigint_hr_to_datetime val = Inr None \<longleftrightarrow>
      (case val of
         None \<Rightarrow> True
       | Some v \<Rightarrow> py_strip (py_str v) \<in> {[], ''0'', ''19700101000000000''})"
    unfolding decode_null_iff by (cases val) simp_all
  show "bigint_hr_to_datetime (Some (StrV ''19700101000000001'')) =
       Inr (Some \<lparr>year = 1970, month = 1, day = 1, hour = 0, minute = 0, second = 0,
                  microsecond = 1000, tzinfo = Some 0\<rparr>)"
    by (rule decode_epoch_plus_1ms)
qed

theorem decode_null_exactly_witness:
  "bigint_hr_to_datetime (Some (IntV 0)) = Inr None
   \<and> bigint_hr_to_datetime (Some (StrV ''19700101000000000'')) = Inr None
   \<and> bigint_hr_to_datetime (Some (StrV [CHR '' '', CHR 0x09, CHR '' ''])) = Inr None
   \<and> bigint_hr_to_datetime (Some (StrV '' 0 '')) = Inr None
   \<and> bigint_hr_to_datetime None = Inr None
   \<and> bigint_hr_to_datetime (Some (StrV ''19700101000000001'')) \<noteq> Inr None
   \<and> bigint_hr_to_datetime (Some (StrV ''20230209084334'')) \<noteq> Inr None"
proof -
  have e1: "py_strip (py_str (IntV 0)) = ''0''" by code_simp
  have e2: "py_strip (py_str (StrV ''19700101000000000'')) = ''19700101000000000''" by code_simp
  have e3: "py_strip (py_str (StrV [CHR '' '', CHR 0x09, CHR '' ''])) = []" by code_simp
  have e4: "py_strip (py_str (StrV '' 0 '')) = ''0''" by code_simp
  have e5: "py_strip (py_str (StrV ''19700101000000001'')) = ''19700101000000001''" by code_simp
  have e6: "py_strip (py_str (StrV ''20230209084334'')) = ''20230209084334''" by code_simp
  show ?thesis
    using decode_null_exactly [of "Some (IntV 0)"]
      decode_null_exactly [of "Some (StrV ''19700101000000000'')"]
      decode_null_exactly [of "Some (StrV [CHR '' '', CHR 0x09, CHR '' ''])"]
      decode_null_exactly [of "Some (StrV '' 0 '')"]
      decode_null_exactly [of None]
      decode_null_exactly [of "Some (StrV ''19700101000000001'')"]
      decode_null_exactly [of "Some (StrV ''20230209084334'')"]
    by (simp add: e1 e2 e3 e4 e5 e6)
qed

lemma bind_err_Inl [simp]: "bind_err (Inl e) f = Inl e"
  by (simp add: bind_err_def)

lemma bind_err_Inr [simp]: "bind_err (Inr x) f = f x"
  by (simp add: bind_err_def)

lemma validate_Inl_iff:
  "isl (validate q) \<longleftrightarrow>
     (order_by q \<notin> {''ID'', ''OpenTime'', ''CloseTime'', ''TimeStamp'', ''Ticket''}
      \<or> order_dir q \<notin> {''ASC'', ''DESC''} \<or> limit q < 1 \<or> limit q > 10000 \<or> offset q < 0)"
  unfolding validate_def by (simp del: insert_iff)

lemma build_where_validate_error:
  "validate q = Inl e \<Longrightarrow> build_where_and_params q = Inl e"
  by (simp add: build_where_and_params_def)

lemma fetch_trades_validate_error:
  "validate q = Inl e \<Longrightarrow> fetch_trades b db q = (Inl e, [])"
  by (simp add: fetch_trades_def build_where_validate_error)

text \<open>
  Claim C6. \<open>validate\<close> raises if and only if the ordering column is outside
  \<open>{ID, OpenTime, CloseTime, TimeStamp, Ticket}\<close>, or the direction is outside
  \<open>{ASC, DESC}\<close>, or \<open>limit\<close> is outside 1 to 10000, or \<open>offset\<close> is negative; and when
  it raises, the query builder and \<open>fetch_trades\<close> end with that error and no statement
  has been sent to the store.
\<close>

theorem validate_raises_iff:
  "(isl (validate q) \<longleftrightarrow>
      (order_by q \<notin> {''ID'', ''OpenTime'', ''CloseTime'', ''TimeStamp'', ''Ticket''}
       \<or> order_dir q \<notin> {''ASC'', ''DESC''}
       \<or> \<not> (1 \<le> limit q \<and> limit q \<le> 10000)
       \<or> offset q < 0))
   \<and> (\<forall>e. validate q = Inl e \<longrightarrow>
         build_where_and_params q = Inl e \<and> fetch_trades b db q = (Inl e, []))"
proof
  show "isl (validate q) \<longleftrightarrow>
      (order_by q \<notin> {''ID'', ''OpenTime'', ''CloseTime'', ''TimeStamp'', ''Ticket''}
       \<or> order_dir q \<notin> {''ASC'', ''DESC''}
       \<or> \<not> (1 \<le> limit q \<and> limit q \<le> 10000)
       \<or> offset q < 0)"
    unfolding validate_Inl_iff by linarith
  show "\<forall>e. validate q = Inl e \<longrightarrow>
         build_where_and_params q = Inl e \<and> fetch_trades b db q = (Inl e, [])"
    by (simp add: build_where_validate_error fetch_trades_validate_error)
qed

theorem validate_raises_iff_witness:
  "validate (q_default\<lparr>order_by := ''DROP TABLE''\<rparr>) = Inl OrderByError
   \<and> fetch_trades b_int db_empty (q_default\<lparr>order_by := ''DROP TABLE''\<rparr>) = (Inl OrderByError, [])
   \<and> isl (validate (q_default\<lparr>limit := 0\<rparr>))
   \<and> isl (validate (q_default\<lparr>limit := 10001\<rparr>))
   \<and> isl (validate (q_default\<lparr>offset := - 1\<rparr>))
   \<and> \<not> isl (validate q_default)"
proof -
  have v: "validate (q_default\<lparr>order_by := ''DROP TABLE''\<rparr>) = Inl OrderByError"
    by (simp add: validate_def q_default_def)
  show ?thesis
    using v validate_raises_iff [of "q_default\<lparr>order_by := ''DROP TABLE''\<rparr>" b_int db_empty]
      validate_raises_iff [of "q_default\<lparr>limit := 0\<rparr>" b_int db_empty]
      validate_raises_iff [of "q_default\<lparr>limit := 10001\<rparr>" b_int db_empty]
      validate_raises_iff [of "q_default\<lparr>offset := - 1\<rparr>" b_int db_empty]
      validate_raises_iff [of q_default b_int db_empty]
    by (simp add: q_default_def)
qed

lemma step_opt:
  "(case x of None \<Rightarrow> st | Some a \<Rightarrow> append_clause c (f a) st) =
     (fst st @ map fst (case x of None \<Rightarrow> [] | Some a \<Rightarrow> [(c, f a)]),
      snd st @ map snd (case x of None \<Rightarrow> [] | Some a \<Rightarrow> [(c, f a)]))"
  by (cases x) (simp_all add: append_clause_def)

lemma step_text:
  "(case x of None \<Rightarrow> st | Some s \<Rightarrow> if s \<noteq> [] then append_clause c (f s) st else st) =
     (fst st @ map fst (if populated_text x then [(c, f (the x))] else []),
      snd st @ map snd (if populated_text x then [(c, f (the x))] else []))"
  by (cases x) (simp_all add: append_clause_def populated_text_def)

lemma step_time:
  assumes "\<And>dt. x = Some dt \<Longrightarrow> \<not> isl (datetime_to_bigint_hr (Some dt))"
  shows "(case x of None \<Rightarrow> Inr st
          | Some dt \<Rightarrow> bind_err (datetime_to_bigint_hr (Some dt))
              (\<lambda>r. Inr (append_clause c (opt_param r) st))) =
     Inr (fst st @ map fst (case x of None \<Rightarrow> [] | Some dt \<Rightarrow> [(c, encoded_bound dt)]),
          snd st @ map snd (case x of None \<Rightarrow> [] | Some dt \<Rightarrow> [(c, encoded_bound dt)]))"
proof (cases x)
  case None
  then show ?thesis by simp
next
  case (Some dt)
  then obtain r where "datetime_to_bigint_hr (Some dt) = Inr r"
    using assms [OF Some] by (cases "datetime_to_bigint_hr (Some dt)") auto
  then show ?thesis using Some by (simp add: append_clause_def encoded_bound_def)
qed

lemma build_where_spec:
  assumes v: "validate q = Inr ()"
    and enc: "\<And>dt. dt \<in> set (bounds q) \<Longrightarrow> \<not> isl (datetime_to_bigint_hr (Some dt))"
  shows "build_where_and_params q =
     Inr (spec_where (map fst (spec_predicates q)), map snd (spec_predicates q))"
proof -
  have e1: "\<And>dt. opened_from q = Some dt \<Longrightarrow> \<not> isl (datetime_to_bigint_hr (Some dt))"
    and e2: "\<And>dt. opened_to q = Some dt \<Longrightarrow> \<not> isl (datetime_to_bigint_hr (Some dt))"
    and e3: "\<And>dt. closed_from q = Some dt \<Longrightarrow> \<not> isl (datetime_to_bigint_hr (Some dt))"
    and e4: "\<And>dt. closed_to q = Some dt \<Longrightarrow> \<not> isl (datetime_to_bigint_hr (Some dt))"
    using enc by (simp_all add: bounds_def)
  show ?thesis
    unfolding build_where_and_params_def v bind_err_Inr Let_def
    apply (subst step_time [of "opened_from q", OF e1], assumption)
    apply (simp only: bind_err_Inr)
    apply (subst step_time [of "opened_to q", OF e2], assumption)
    apply (simp only: bind_err_Inr)
    apply (subst step_time [of "closed_from q", OF e3], assumption)
    apply (simp only: bind_err_Inr)
    apply (subst step_time [of "closed_to q", OF e4], assumption)
    apply (simp only: bind_err_Inr step_opt step_text)
    apply (simp add: spec_predicates_def spec_where_def)
    done
qed

lemma length_spec_predicates: "length (spec_predicates q) = populated_count q"
  by (simp add: spec_predicates_def populated_count_def split: option.splits)


lemma utc_bound_encodes:
  assumes "valid_datetime dt" and "tzinfo dt = None \<or> tzinfo dt = Some 0"
  shows "\<not> isl (datetime_to_bigint_hr (Some dt))"
proof -
  have "to_utc dt = Inr (dt\<lparr>tzinfo := Some 0\<rparr>)" using assms(2) by (rule to_utc_utc)
  moreover have "valid_datetime (dt\<lparr>tzinfo := Some 0\<rparr>)" using assms(1) by (rule valid_tz_update)
  ultimately show ?thesis by (simp add: encode_utc)
qed

text \<open>
  Claim C7, as stated, fails for a valid query with a temporal bound that the encoder
  refuses: midnight of 1 January of year 1, one hour east of UTC, has no UTC date, the
  encoder raises \<^verbatim>\<open>OverflowError\<close> and no clause is built.
\<close>

theorem where_clause_counterexample:
  "validate q_overflow = Inr () \<and> build_where_and_params q_overflow = Inl OverflowError"
proof -
  have a: "validate q_overflow = Inr ()" by code_simp
  have b: "build_where_and_params q_overflow = Inl OverflowError" by code_simp
  show ?thesis using a b by (rule conjI)
qed

text \<open>
  Claim C7, amended. For a query that passes validation and whose temporal bounds the
  encoder accepts (as it does every naive or UTC bound), the builder returns the
  predicates of the populated filters joined by \<^verbatim>\<open>AND\<close>, one for each populated filter
  and in the fixed order of the fields, with the parameters in the same order; a temporal
  bound is bound as the encoder's result, a comment pattern is wrapped in \<^verbatim>\<open>%\<close>, and a
  filter that is not populated gives nothing. A filter is populated when it is set, and
  for the symbol and the comment also not empty.
\<close>

theorem where_clause_per_populated_field:
  assumes "validate q = Inr ()"
    and "\<forall>dt \<in> set (bounds q). \<not> isl (datetime_to_bigint_hr (Some dt))"
  shows "build_where_and_params q =
           Inr (spec_where (map fst (spec_predicates q)), map snd (spec_predicates q))
         \<and> length (spec_predicates q) = populated_count q"
  using assms by (simp add: build_where_spec length_spec_predicates)

theorem where_clause_per_populated_field_witness:
  "validate q_sample = Inr ()
   \<and> build_where_and_params q_sample =
       Inr ('' WHERE TradeAccountID = %s AND SymbolName = %s AND OpenTime >= %s AND OpenTime <= %s AND Comment LIKE %s'',
            [IntP 111, StrP ''EURUSD'', IntP 20230209000000000, IntP 20230209230000000,
             StrP ''%hedge%''])
   \<and> populated_count q_sample = 5"
proof -
  have v: "validate q_sample = Inr ()" by code_simp
  have b: "\<forall>dt \<in> set (bounds q_sample). \<not> isl (datetime_to_bigint_hr (Some dt))" by code_simp
  have w: "spec_where (map fst (spec_predicates q_sample)) =
      '' WHERE TradeAccountID = %s AND SymbolName = %s AND OpenTime >= %s AND OpenTime <= %s AND Comment LIKE %s''"
    by code_simp
  have p: "map snd (spec_predicates q_sample) =
      [IntP 111, StrP ''EURUSD'', IntP 20230209000000000, IntP 20230209230000000, StrP ''%hedge%'']"
    by code_simp
  have n: "length (spec_predicates q_sample) = 5" by code_simp
  show ?thesis
    using where_clause_per_populated_field [OF v b] v b by (simp add: w p n)
qed

lemma validate_symbol_update [simp]: "validate (q\<lparr>symbol := x\<rparr>) = validate q"
  by (simp add: validate_def)

lemma validate_comment_update [simp]: "validate (q\<lparr>comment_like := x\<rparr>) = validate q"
  by (simp add: validate_def)

lemma empty_symbol_as_unset:
  "build_where_and_params (q\<lparr>symbol := Some []\<rparr>) = build_where_and_params (q\<lparr>symbol := None\<rparr>)"
  by (simp add: build_where_and_params_def)

lemma empty_comment_as_unset:
  "build_where_and_params (q\<lparr>comment_like := Some []\<rparr>) =
     build_where_and_params (q\<lparr>comment_like := None\<rparr>)"
  by (simp add: build_where_and_params_def)

lemma fetch_trades_cong:
  "build_where_and_params q = build_where_and_params q' \<Longrightarrow> order_by q = order_by q' \<Longrightarrow>
   order_dir q = order_dir q' \<Longrightarrow> limit q = limit q' \<Longrightarrow> offset q = offset q' \<Longrightarrow>
   fetch_trades b db q = fetch_trades b db q'"
  unfolding fetch_trades_def by (simp split: sum.splits prod.splits)

lemma fetch_empty_symbol:
  "fetch_trades b db (q\<lparr>symbol := Some []\<rparr>) = fetch_trades b db (q\<lparr>symbol := None\<rparr>)"
  by (rule fetch_trades_cong) (simp_all add: empty_symbol_as_unset)

lemma fetch_empty_comment:
  "fetch_trades b db (q\<lparr>comment_like := Some []\<rparr>) = fetch_trades b db (q\<lparr>comment_like := None\<rparr>)"
  by (rule fetch_trades_cong) (simp_all add: empty_comment_as_unset)

text \<open>
  Claim C10. A symbol or comment filter given as the empty text is treated as unset: the
  builder's result, and with it the statement and parameters \<open>fetch_trades\<close> sends, are
  those of the query without the filter. An account or ticket filter equal to 0 still gives
  its equality predicate with the parameter 0.
\<close>

theorem empty_text_filter_unset_zero_id_kept:
  "build_where_and_params (q\<lparr>symbol := Some []\<rparr>) = build_where_and_params (q\<lparr>symbol := None\<rparr>)
   \<and> build_where_and_params (q\<lparr>comment_like := Some []\<rparr>) =
       build_where_and_params (q\<lparr>comment_like := None\<rparr>)
   \<and> fetch_trades b db (q\<lparr>symbol := Some []\<rparr>) = fetch_trades b db (q\<lparr>symbol := None\<rparr>)
   \<and> fetch_trades b db (q\<lparr>comment_like := Some []\<rparr>) =
       fetch_trades b db (q\<lparr>comment_like := None\<rparr>)
   \<and> (validate q = Inr () \<and> (\<forall>dt \<in> set (bounds q). \<not> isl (datetime_to_bigint_hr (Some dt)))
        \<longrightarrow> (\<exists>w ps. build_where_and_params q = Inr (w, map snd ps)
              \<and> w = spec_where (map fst ps)
              \<and> (trade_account_id q = Some 0 \<longrightarrow> (''TradeAccountID = %s'', IntP 0) \<in> set ps)
              \<and> (ticket q = Some 0 \<longrightarrow> (''Ticket = %s'', IntP 0) \<in> set ps)))"
proof -
  have "validate q = Inr () \<and> (\<forall>dt \<in> set (bounds q). \<not> isl (datetime_to_bigint_hr (Some dt)))
        \<longrightarrow> (\<exists>w ps. build_where_and_params q = Inr (w, map snd ps)
              \<and> w = spec_where (map fst ps)
              \<and> (trade_account_id q = Some 0 \<longrightarrow> (''TradeAccountID = %s'', IntP 0) \<in> set ps)
              \<and> (ticket q = Some 0 \<longrightarrow> (''Ticket = %s'', IntP 0) \<in> set ps))"
  proof
    assume a: "validate q = Inr () \<and> (\<forall>dt \<in> set (bounds q). \<not> isl (datetime_to_bigint_hr (Some dt)))"
    then have "build_where_and_params q =
        Inr (spec_where (map fst (spec_predicates q)), map snd (spec_predicates q))"
      by (simp add: build_where_spec)
    moreover have "trade_account_id q = Some 0 \<longrightarrow>
        (''TradeAccountID = %s'', IntP 0) \<in> set (spec_predicates q)"
      by (simp add: spec_predicates_def)
    moreover have "ticket q = Some 0 \<longrightarrow> (''Ticket = %s'', IntP 0) \<in> set (spec_predicates q)"
      by (simp add: spec_predicates_def)
    ultimately show "\<exists>w ps. build_where_and_params q = Inr (w, map snd ps)
              \<and> w = spec_where (map fst ps)
              \<and> (trade_account_id q = Some 0 \<longrightarrow> (''TradeAccountID = %s'', IntP 0) \<in> set ps)
              \<and> (ticket q = Some 0 \<longrightarrow> (''Ticket = %s'', IntP 0) \<in> set ps)"
      by blast
  qed
  then show ?thesis
    using empty_symbol_as_unset [of q] empty_comment_as_unset [of q]
      fetch_empty_symbol [of b db q] fetch_empty_comment [of b db q] by blast
qed

theorem empty_text_filter_unset_zero_id_kept_witness:
  "build_where_and_params (q_default\<lparr>symbol := Some []\<rparr>) = Inr ([], [])
   \<and> build_where_and_params (q_default\<lparr>symbol := None\<rparr>) = Inr ([], [])
   \<and> fetch_trades b_int db_empty (q_default\<lparr>comment_like := Some []\<rparr>) =
       fetch_trades b_int db_empty (q_default\<lparr>comment_like := None\<rparr>)
   \<and> build_where_and_params (q_default\<lparr>trade_account_id := Some 0, ticket := Some 0\<rparr>) =
       Inr ('' WHERE TradeAccountID = %s AND Ticket = %s'', [IntP 0, IntP 0])"
proof -
  have e: "build_where_and_params (q_default\<lparr>symbol := None\<rparr>) = Inr ([], [])" by code_simp
  have z: "build_where_and_params (q_default\<lparr>trade_account_id := Some 0, ticket := Some 0\<rparr>) =
       Inr ('' WHERE TradeAccountID = %s AND Ticket = %s'', [IntP 0, IntP 0])" by code_simp
  show ?thesis
    using empty_text_filter_unset_zero_id_kept [of q_default b_int db_empty] e z by simp
qed

lemma finite_REQUIRED_SET: "finite REQUIRED_SET"
  by (simp add: REQUIRED_SET_def)

lemma card_REQUIRED_SET: "card REQUIRED_SET = 25"
proof -
  have "distinct COLUMNS" by code_simp
  then have "card (set COLUMNS) = length COLUMNS" by (rule distinct_card)
  moreover have "length COLUMNS = 25" by (simp add: COLUMNS_def)
  ultimately show ?thesis by (simp add: REQUIRED_SET_def)
qed

lemma raw_no_rows:
  "is_select_only sql \<Longrightarrow> can_connect db \<Longrightarrow> execute db sql [] = Inr (cols, []) \<Longrightarrow>
   fetch_trades_by_sql b db sql = (Inr [], [(sql, [])])"
  by (simp add: fetch_trades_by_sql_def)

lemma raw_missing_columns:
  "is_select_only sql \<Longrightarrow> can_connect db \<Longrightarrow> execute db sql [] = Inr (cols, rws) \<Longrightarrow>
   rws \<noteq> [] \<Longrightarrow> \<not> REQUIRED_SET \<subseteq> set cols \<Longrightarrow>
   fetch_trades_by_sql b db sql =
     (Inl (MissingColumnsError (join '', '' (sorted_list_of_set (REQUIRED_SET - set cols)))),
      [(sql, [])])"
  by (simp add: fetch_trades_by_sql_def Let_def)

text \<open>
  Claim C5. In raw-query mode, once the guard has accepted the text and the store has
  executed it: a result without rows gives the empty list of records, whatever its
  columns; a result with at least one row whose columns do not include all 25 required
  columns gives the error that lists the missing names, sorted and separated by commas,
  and exactly those names. The error does not depend on the rows or on the conversions
  of the mapper: no row is mapped before it.
\<close>

theorem raw_query_schema_check:
  assumes "is_select_only sql" and "can_connect db" and "execute db sql [] = Inr (cols, rws)"
  shows "(rws = [] \<longrightarrow> fetch_trades_by_sql b db sql = (Inr [], [(sql, [])]))
       \<and> (rws \<noteq> [] \<and> \<not> REQUIRED_SET \<subseteq> set cols \<longrightarrow>
            fetch_trades_by_sql b db sql =
              (Inl (MissingColumnsError
                     (join '', '' (sorted_list_of_set (REQUIRED_SET - set cols)))),
               [(sql, [])])
            \<and> set (sorted_list_of_set (REQUIRED_SET - set cols)) = REQUIRED_SET - set cols
            \<and> distinct (sorted_list_of_set (REQUIRED_SET - set cols)))
       \<and> card REQUIRED_SET = 25"
  using assms raw_no_rows [of sql db cols b] raw_missing_columns [of sql db cols rws b]
    finite_REQUIRED_SET card_REQUIRED_SET
  by simp

theorem raw_query_schema_check_witness:
  "is_select_only ''SELECT * FROM TradeHistories'' \<and> can_connect db_missing
   \<and> fetch_trades_by_sql b_int db_missing ''SELECT * FROM TradeHistories'' =
       (Inl (MissingColumnsError ''Digits, Ticket''), [(''SELECT * FROM TradeHistories'', [])])
   \<and> fetch_trades_by_sql b_int db_empty ''SELECT * FROM TradeHistories'' =
       (Inr [], [(''SELECT * FROM TradeHistories'', [])])"
proof -
  let ?sql = "''SELECT * FROM TradeHistories''"
  let ?cols = "filter (\<lambda>c. c \<noteq> ''Ticket'' \<and> c \<noteq> ''Digits'') COLUMNS"
  have g: "is_select_only ?sql" by code_simp
  have c: "can_connect db_missing" "can_connect db_empty"
    by (simp_all add: db_missing_def db_empty_def)
  have x: "execute db_missing ?sql [] = Inr (?cols, [Map.empty])"
    by (simp add: db_missing_def)
  have y: "execute db_empty ?sql [] = Inr ([], [])"
    by (simp add: db_empty_def)
  have n: "\<not> REQUIRED_SET \<subseteq> set ?cols" by code_simp
  have m: "join '', '' (sorted_list_of_set (REQUIRED_SET - set ?cols)) = ''Digits, Ticket''"
    by code_simp
  show ?thesis
    using raw_query_schema_check [OF g c(1) x, of b_int]
      raw_query_schema_check [OF g c(2) y, of b_int] g c n m
    by simp
qed

lemma rejected_never_executed:
  "\<not> is_select_only sql \<Longrightarrow> fetch_trades_by_sql b db sql = (Inl NotSelectError, [])"
  by (simp add: fetch_trades_by_sql_def)

text \<open>
  Claim C4. The guard accepts a text that opens with \<^verbatim>\<open>/*/\<close>: the search for the end of
  the block comment starts at the opening \<^verbatim>\<open>/*\<close> itself and takes its \<^verbatim>\<open>*/\<close> from
  \<^verbatim>\<open>/*/\<close>, so the comment's own text is read as the statement. A \<^verbatim>\<open>DELETE\<close> behind a
  block comment \<^verbatim>\<open>/*/select*/\<close> is accepted and sent to the store, where the guard of
  the specification refuses it. The guard also refuses a \<^verbatim>\<open>SELECT\<close> that follows a line
  comment and then a block comment, which the guard of the specification accepts.
\<close>

theorem guard_accepts_commented_delete:
  "is_select_only sql_commented_delete
   \<and> \<not> spec_is_select_only sql_commented_delete
   \<and> spec_strip_comments sql_commented_delete = ''DELETE FROM TradeHistories''
   \<and> snd (fetch_trades_by_sql b_int db_empty sql_commented_delete) = [(sql_commented_delete, [])]
   \<and> \<not> is_select_only sql_line_then_block
   \<and> spec_is_select_only sql_line_then_block"
proof -
  have a: "is_select_only sql_commented_delete" by code_simp
  have b: "\<not> spec_is_select_only sql_commented_delete" by code_simp
  have c: "spec_strip_comments sql_commented_delete = ''DELETE FROM TradeHistories''" by code_simp
  have d: "snd (fetch_trades_by_sql b_int db_empty sql_commented_delete) = [(sql_commented_delete, [])]"
    using a by (simp add: fetch_trades_by_sql_def db_empty_def)
  have e: "\<not> is_select_only sql_line_then_block" by code_simp
  have f: "spec_is_select_only sql_line_then_block" by code_simp
  show ?thesis using a b c d e f by simp
qed

lemma loc_not_map:
  "map snd (filter (\<lambda>(m, r). \<not> m) (zip (map f rs) rs)) = filter (\<lambda>r. \<not> f r) rs"
  by (induction rs) simp_all

lemma zip_masks:
  "map (\<lambda>(a, b). a \<or> b) (zip (map f rs) (map g rs)) = map (\<lambda>r. f r \<or> g r) rs"
  by (induction rs) simp_all

lemma magic_is_zero_column:
  "magic_is_zero p (column df ''magic'') = map (spec_condition_A p (columns df)) (rows df)"
  by (simp add: magic_is_zero_def column_def spec_condition_A_def split: option.splits)

lemma cancelled_column:
  "''comment'' \<in> set (columns df) \<Longrightarrow>
   map (\<lambda>s. s \<in> CANCELLED_TOKENS) (normalize_comment p (column df ''comment'')) =
     map (spec_condition_B p (columns df)) (rows df)"
  by (simp add: normalize_comment_def column_def spec_condition_B_def comment_text_def
      CANCELLED_TOKENS_def Let_def)

lemma filter_chunk_rows:
  assumes "''magic'' \<in> set (columns df)"
  shows "filter_chunk p df = Inr (df\<lparr>rows := filter (\<lambda>r. \<not> spec_drop p (columns df) r) (rows df)\<rparr>)"
proof (cases "''comment'' \<in> set (columns df)")
  case True
  show ?thesis
    unfolding filter_chunk_def Let_def magic_is_zero_column cancelled_column [OF True] zip_masks
      loc_not_def loc_not_map
    using assms True by (simp add: spec_drop_def)
next
  case False
  then have "\<And>r. spec_drop p (columns df) r = spec_condition_A p (columns df) r"
    by (simp add: spec_drop_def spec_condition_B_def)
  then show ?thesis
    unfolding filter_chunk_def Let_def magic_is_zero_column loc_not_def loc_not_map
    using assms False by simp
qed

lemma filter_chunk_no_magic:
  "''magic'' \<notin> set (columns df) \<Longrightarrow>
   filter_chunk p df = Inl (KeyError ''Missing 'magic' column in CSV'')"
  by (simp add: filter_chunk_def)

lemma filter_csv_loop_written:
  assumes "\<forall>chunk \<in> set reader. columns chunk = cols" and "''magic'' \<in> set cols"
  shows "filter_csv_loop p reader
           \<lparr>total_in = i, total_out = k, wrote_header = True, out_file = Some (cols, rs)\<rparr> =
         (None, \<lparr>total_in = i + length (concat (map rows reader)),
                 total_out = k + length (filter (\<lambda>r. \<not> spec_drop p cols r) (concat (map rows reader))),
                 wrote_header = True,
                 out_file = Some (cols, rs @ map (map (to_csv_field p))
                   (filter (\<lambda>r. \<not> spec_drop p cols r) (concat (map rows reader))))\<rparr>)"
  using assms
proof (induction reader arbitrary: i k rs)
  case Nil
  then show ?case by simp
next
  case (Cons chunk reader)
  have c: "columns chunk = cols" using Cons.prems by simp
  have m: "''magic'' \<in> set (columns chunk)" using c Cons.prems by simp
  have r: "\<forall>chunk \<in> set reader. columns chunk = cols" using Cons.prems by simp
  show ?case
    by (simp add: filter_chunk_rows [OF m] c to_csv_append_def Cons.IH [OF r Cons.prems(2)])
qed

lemma filter_csv_run:
  assumes "reader \<noteq> []" and "\<forall>chunk \<in> set reader. columns chunk = cols" and "''magic'' \<in> set cols"
  shows "filter_csv p reader =
         (None, \<lparr>total_in = length (concat (map rows reader)),
                 total_out = length (filter (\<lambda>r. \<not> spec_drop p cols r) (concat (map rows reader))),
                 wrote_header = True,
                 out_file = Some (cols, map (map (to_csv_field p))
                   (filter (\<lambda>r. \<not> spec_drop p cols r) (concat (map rows reader))))\<rparr>)"
proof (cases reader)
  case Nil
  then show ?thesis using assms by simp
next
  case (Cons chunk rest)
  have c: "columns chunk = cols" using Cons assms by simp
  have m: "''magic'' \<in> set (columns chunk)" using c assms by simp
  have r: "\<forall>chunk \<in> set rest. columns chunk = cols" using Cons assms by simp
  show ?thesis
    unfolding filter_csv_def Cons
    by (simp add: filter_chunk_rows [OF m] c to_csv_append_def
        filter_csv_loop_written [OF r assms(3)])
qed

lemma filter_csv_abort:
  assumes "''magic'' \<notin> set (columns chunk)"
  shows "filter_csv p (chunk # reader) =
         (Some (KeyError ''Missing 'magic' column in CSV''),
          \<lparr>total_in = length (rows chunk), total_out = 0, wrote_header = False, out_file = None\<rparr>)"
  by (simp add: filter_csv_def filter_chunk_no_magic [OF assms])



lemma length_rows_read_chunk [simp]: "length (rows (read_chunk p cols rws)) = length rws"
  by (simp add: read_chunk_def)

lemma columns_read_chunk [simp]: "columns (read_chunk p cols rws) = cols"
  by (simp add: read_chunk_def)











lemma p_sample_sel:
  "parse_number p_sample s = (case py_int s of Inl e \<Rightarrow> None | Inr n \<Rightarrow> Some (of_int n))"
  "format_number p_sample x = str_int \<lfloor>x\<rfloor> @ ''.0''"
  "is_na p_sample w = (w \<in> set STR_NA_VALUES)"
  "infer_rest p_sample ws w =
     (if w \<in> set STR_NA_VALUES then NA
      else if list_all (\<lambda>v. v \<in> set STR_NA_VALUES \<or> is_int64_text v) ws
      then (case str_to_int64 w of None \<Rightarrow> NA | Some k \<Rightarrow> Num (of_int k))
      else Str w)"
  "repr_float p_sample x = str_int \<lfloor>x\<rfloor> @ ''.0''"
  by (simp_all add: p_sample_def)






lemma norm_samples:
  "py_lower (py_strip ''x'') = ''x''"
  "py_lower (py_strip ''Cancelled'') = ''cancelled''"
  "py_lower (py_strip '' cancelled  '') = ''cancelled''"
  "py_lower (py_strip ''filled'') = ''filled''"
  "py_lower (py_strip []) = []"
  "py_lower (py_strip ''CANCELED'') = ''canceled''"
  "py_lower (py_strip ''canceled order'') = ''canceled order''"
  by code_simp+

lemma parse_samples:
  "py_int ''abc'' = Inl IntError" "py_int ''0'' = Inr 0" "py_int ''5'' = Inr 5"
  by code_simp+

lemma str_int_samples:
  "str_int 2 = ''2''" "str_int 4 = ''4''" "str_int 5 = ''5''" "str_int 7 = ''7''"
  by code_simp+

lemmas sample_defs = spec_drop_def spec_condition_A_def spec_condition_B_def cell_of_def
  to_numeric_def comment_text_def astype_string_def to_csv_field_def p_sample_sel Let_def
  norm_samples parse_samples str_int_samples






text \<open>
  Claim C9. When the first chunk has no magic column the run ends there with the
  \<^verbatim>\<open>KeyError\<close>, whatever its rows and the chunks that follow, and no output has been
  written. When the input has the magic column and no comment column, every chunk and
  the whole run keep exactly the rows whose magic value is not a number equal to 0, and
  the run writes these rows.
\<close>

theorem missing_magic_aborts_missing_comment_keeps:
  "(''magic'' \<notin> set (columns chunk) \<longrightarrow>
      filter_csv p (chunk # rest) =
        (Some (KeyError ''Missing 'magic' column in CSV''),
         \<lparr>total_in = length (rows chunk), total_out = 0, wrote_header = False, out_file = None\<rparr>))
   \<and> (''magic'' \<in> set cols \<and> ''comment'' \<notin> set cols \<and> reader \<noteq> []
        \<and> (\<forall>c \<in> set reader. columns c = cols) \<longrightarrow>
        (\<forall>c \<in> set reader. filter_chunk p c =
            Inr (c\<lparr>rows := filter (\<lambda>r. \<not> spec_condition_A p cols r) (rows c)\<rparr>))
        \<and> filter_csv p reader =
            (None, \<lparr>total_in = length (concat (map rows reader)),
                    total_out = length (filter (\<lambda>r. \<not> spec_condition_A p cols r)
                                          (concat (map rows reader))),
                    wrote_header = True,
                    out_file = Some (cols, map (map (to_csv_field p))
                      (filter (\<lambda>r. \<not> spec_condition_A p cols r) (concat (map rows reader))))\<rparr>))"
proof (intro conjI impI)
  assume "''magic'' \<notin> set (columns chunk)"
  then show "filter_csv p (chunk # rest) =
        (Some (KeyError ''Missing 'magic' column in CSV''),
         \<lparr>total_in = length (rows chunk), total_out = 0, wrote_header = False, out_file = None\<rparr>)"
    by (rule filter_csv_abort)
next
  assume a: "''magic'' \<in> set cols \<and> ''comment'' \<notin> set cols \<and> reader \<noteq> []
        \<and> (\<forall>c \<in> set reader. columns c = cols)"
  then have d: "\<And>r. spec_drop p cols r = spec_condition_A p cols r"
    by (simp add: spec_drop_def spec_condition_B_def)
  show "\<forall>c \<in> set reader. filter_chunk p c =
            Inr (c\<lparr>rows := filter (\<lambda>r. \<not> spec_condition_A p cols r) (rows c)\<rparr>)"
  proof
    fix c assume "c \<in> set reader"
    then have cc: "columns c = cols" using a by simp
    then have "''magic'' \<in> set (columns c)" using a by simp
    from filter_chunk_rows [OF this, of p]
    show "filter_chunk p c =
            Inr (c\<lparr>rows := filter (\<lambda>r. \<not> spec_condition_A p cols r) (rows c)\<rparr>)"
      unfolding cc d .
  qed
  have r: "reader \<noteq> []" and s: "\<forall>c \<in> set reader. columns c = cols" and m: "''magic'' \<in> set cols"
    using a by simp_all
  from filter_csv_run [OF r s m, of p]
  show "filter_csv p reader =
            (None, \<lparr>total_in = length (concat (map rows reader)),
                    total_out = length (filter (\<lambda>r. \<not> spec_condition_A p cols r)
                                          (concat (map rows reader))),
                    wrote_header = True,
                    out_file = Some (cols, map (map (to_csv_field p))
                      (filter (\<lambda>r. \<not> spec_condition_A p cols r) (concat (map rows reader))))\<rparr>)"
    unfolding d .
qed

theorem missing_magic_aborts_missing_comment_keeps_witness:
  "filter_csv p_sample [df_no_magic, df_sample] =
     (Some (KeyError ''Missing 'magic' column in CSV''),
      \<lparr>total_in = 1, total_out = 0, wrote_header = False, out_file = None\<rparr>)
   \<and> filter_csv p_sample [df_no_comment] =
       (None, \<lparr>total_in = 4, total_out = 3, wrote_header = True,
               out_file = Some ([''ticket'', ''magic''],
                 [[''2'', ''5''], [''cancelled'', ''abc''], [''4'', []]])\<rparr>)"
proof -
  let ?cols = "[''ticket'', ''magic'']"
  have m: "''magic'' \<notin> set (columns df_no_magic)" by (simp add: df_no_magic_def)
  have n: "length (rows df_no_magic) = 1" "length (rows df_no_comment) = 4"
    by (simp_all add: df_no_magic_def df_no_comment_def)
  have c: "''magic'' \<in> set ?cols \<and> ''comment'' \<notin> set ?cols \<and> [df_no_comment] \<noteq> []
        \<and> (\<forall>c \<in> set [df_no_comment]. columns c = ?cols)"
    by (simp add: df_no_comment_def)
  have k: "filter (\<lambda>r. \<not> spec_condition_A p_sample ?cols r) (rows df_no_comment) =
      [[IntC 2, IntC 5], [Str ''cancelled'', Str ''abc''], [IntC 4, NA]]"
    by (simp add: df_no_comment_def sample_defs)
  have w: "map (map (to_csv_field p_sample)) [[IntC 2, IntC 5], [Str ''cancelled'', Str ''abc''], [IntC 4, NA]] =
      [[''2'', ''5''], [''cancelled'', ''abc''], [''4'', []]]"
    by (simp add: to_csv_field_def str_int_samples)
  have all_rows: "concat (map rows [df_no_comment]) = rows df_no_comment" by simp
  note t = missing_magic_aborts_missing_comment_keeps
        [of df_no_magic p_sample "[df_sample]" ?cols "[df_no_comment]"]
  from t have "''magic'' \<notin> set (columns df_no_magic) \<longrightarrow>
      filter_csv p_sample [df_no_magic, df_sample] =
        (Some (KeyError ''Missing 'magic' column in CSV''),
         \<lparr>total_in = length (rows df_no_magic), total_out = 0, wrote_header = False,
          out_file = None\<rparr>)"
    by (rule conjunct1)
  then have f1: "filter_csv p_sample [df_no_magic, df_sample] =
     (Some (KeyError ''Missing 'magic' column in CSV''),
      \<lparr>total_in = 1, total_out = 0, wrote_header = False, out_file = None\<rparr>)"
    using m unfolding n by (rule mp)
  from t have "''magic'' \<in> set ?cols \<and> ''comment'' \<notin> set ?cols \<and> [df_no_comment] \<noteq> []
        \<and> (\<forall>c \<in> set [df_no_comment]. columns c = ?cols) \<longrightarrow>
        (\<forall>c \<in> set [df_no_comment]. filter_chunk p_sample c =
            Inr (c\<lparr>rows := filter (\<lambda>r. \<not> spec_condition_A p_sample ?cols r) (rows c)\<rparr>))
        \<and> filter_csv p_sample [df_no_comment] =
            (None, \<lparr>total_in = length (concat (map rows [df_no_comment])),
                    total_out = length (filter (\<lambda>r. \<not> spec_condition_A p_sample ?cols r)
                                          (concat (map rows [df_no_comment]))),
                    wrote_header = True,
                    out_file = Some (?cols, map (map (to_csv_field p_sample))
                      (filter (\<lambda>r. \<not> spec_condition_A p_sample ?cols r)
                         (concat (map rows [df_no_comment]))))\<rparr>)"
    by (rule conjunct2)
  then have "filter_csv p_sample [df_no_comment] =
            (None, \<lparr>total_in = length (concat (map rows [df_no_comment])),
                    total_out = length (filter (\<lambda>r. \<not> spec_condition_A p_sample ?cols r)
                                          (concat (map rows [df_no_comment]))),
                    wrote_header = True,
                    out_file = Some (?cols, map (map (to_csv_field p_sample))
                      (filter (\<lambda>r. \<not> spec_condition_A p_sample ?cols r)
                         (concat (map rows [df_no_comment]))))\<rparr>)"
    using c by (rule mp [THEN conjunct2])
  then have f2: "filter_csv p_sample [df_no_comment] =
       (None, \<lparr>total_in = 4, total_out = 3, wrote_header = True,
               out_file = Some ([''ticket'', ''magic''],
                 [[''2'', ''5''], [''cancelled'', ''abc''], [''4'', []]])\<rparr>)"
    unfolding all_rows k n w by simp
  show ?thesis using f1 f2 by (rule conjI)
qed

text \<open>
  Claim C2, as stated, fails: the millisecond field is not the half-up rounding. At
  08:43:34.000500 UTC the encoder gives the field 000 (Python rounds the tie 0.5 to the
  even 0), where the encoder of the specification gives 001.
\<close>

theorem encode_half_up_counterexample:
  "datetime_to_bigint_hr (Some t_half_ms) = Inr (Some 20230209084334000)
   \<and> spec_encode t_half_ms = Inr ''20230209084334001''"
proof -
  have a: "datetime_to_bigint_hr (Some t_half_ms) = Inr (Some 20230209084334000)" by code_simp
  have b: "spec_encode t_half_ms = Inr ''20230209084334001''" by code_simp
  show ?thesis using a b by (rule conjI)
qed

text \<open>
  Claim C2, amended. The encoder takes a naive datetime as UTC and converts an aware one;
  the conversion fails with \<^verbatim>\<open>OverflowError\<close> or gives a datetime \<open>a\<close> in UTC. The millisecond
  field is the sub-second component rounded to the nearest millisecond, a tie going to
  the even one: the half-up rounding, less one when the microseconds are 500 modulo
  2000. A rounding to 1000, which happens from 999500 microseconds on, is replaced by 0
  and nothing is carried into the seconds, so the field is between 0 and 999. The result
  is the integer written by the 14 digits of date and time followed by the 3 digits of
  the field; its decimal text is these 17 digits when the year is 1000 or later.
\<close>

theorem encode_field_and_format:
  assumes "valid_datetime t"
  shows "(\<forall>e. to_utc t = Inl e \<longrightarrow>
            e = OverflowError \<and> datetime_to_bigint_hr (Some t) = Inl OverflowError)
   \<and> (tzinfo t = None \<or> tzinfo t = Some 0 \<longrightarrow> to_utc t = Inr (t\<lparr>tzinfo := Some 0\<rparr>))
   \<and> (\<forall>a. to_utc t = Inr a \<longrightarrow>
        valid_datetime a \<and> tzinfo a = Some 0
        \<and> datetime_to_bigint_hr (Some t) =
            Inr (Some (int_of_digits (strftime_YmdHMS a @ zero_pad 3 (ms_field (microsecond a)))))
        \<and> int_of_digits (strftime_YmdHMS a @ zero_pad 3 (ms_field (microsecond a))) =
            year a * 10 ^ 13 + month a * 10 ^ 11 + day a * 10 ^ 9 + hour a * 10 ^ 7
              + minute a * 10 ^ 5 + second a * 10 ^ 3 + ms_field (microsecond a)
        \<and> length (strftime_YmdHMS a) = 14
        \<and> length (zero_pad 3 (ms_field (microsecond a))) = 3
        \<and> 0 \<le> ms_field (microsecond a) \<and> ms_field (microsecond a) \<le> 999
        \<and> ms_field (microsecond a) =
            (if round_ms (microsecond a) = 1000 then 0 else round_ms (microsecond a))
        \<and> round_ms (microsecond a) =
            (if microsecond a mod 2000 = 500 then spec_round_half_up (microsecond a) - 1
             else spec_round_half_up (microsecond a))
        \<and> (round_ms (microsecond a) = 1000 \<longleftrightarrow> 999500 \<le> microsecond a)
        \<and> (1000 \<le> year a \<longrightarrow>
             str_int (int_of_digits (strftime_YmdHMS a @ zero_pad 3 (ms_field (microsecond a)))) =
               strftime_YmdHMS a @ zero_pad 3 (ms_field (microsecond a))))"
proof (intro conjI allI impI)
  fix e assume e: "to_utc t = Inl e"
  then show "e = OverflowError" using to_utc_valid [OF assms] by simp
  then show "datetime_to_bigint_hr (Some t) = Inl OverflowError" using e by (simp add: encode_error)
next
  assume "tzinfo t = None \<or> tzinfo t = Some 0"
  then show "to_utc t = Inr (t\<lparr>tzinfo := Some 0\<rparr>)" by (rule to_utc_utc)
next
  fix a assume u: "to_utc t = Inr a"
  then have v: "valid_datetime a" and z: "tzinfo a = Some 0"
    using to_utc_valid [OF assms] by simp_all
  have us: "0 \<le> microsecond a" "microsecond a \<le> 999999" using valid_ranges(13,14) [OF v] .
  have m: "0 \<le> ms_field (microsecond a)" "ms_field (microsecond a) \<le> 999"
    "ms_field (microsecond a) < 1000" "ms_field (microsecond a) < 10 ^ 3"
    using ms_field_bounds [OF us] by simp_all
  show "valid_datetime a" using v .
  show "tzinfo a = Some 0" using z .
  show "datetime_to_bigint_hr (Some t) =
          Inr (Some (int_of_digits (strftime_YmdHMS a @ zero_pad 3 (ms_field (microsecond a)))))"
    using u v by (rule encode_utc)
  show "int_of_digits (strftime_YmdHMS a @ zero_pad 3 (ms_field (microsecond a))) =
            year a * 10 ^ 13 + month a * 10 ^ 11 + day a * 10 ^ 9 + hour a * 10 ^ 7
              + minute a * 10 ^ 5 + second a * 10 ^ 3 + ms_field (microsecond a)"
    using v m(1,3) by (rule int_of_strftime)
  show "length (strftime_YmdHMS a) = 14" using v by (rule strftime_length)
  show "length (zero_pad 3 (ms_field (microsecond a))) = 3"
    using m(1,4) by (simp add: length_zero_pad)
  show "0 \<le> ms_field (microsecond a)" using m(1) .
  show "ms_field (microsecond a) \<le> 999" using m(2) .
  show "ms_field (microsecond a) =
            (if round_ms (microsecond a) = 1000 then 0 else round_ms (microsecond a))"
    by (simp add: ms_field_def)
  show "round_ms (microsecond a) =
            (if microsecond a mod 2000 = 500 then spec_round_half_up (microsecond a) - 1
             else spec_round_half_up (microsecond a))"
    by (rule round_ms_half_even)
  show "round_ms (microsecond a) = 1000 \<longleftrightarrow> 999500 \<le> microsecond a"
    using us by (rule round_ms_1000_iff)
  show "str_int (int_of_digits (strftime_YmdHMS a @ zero_pad 3 (ms_field (microsecond a)))) =
               strftime_YmdHMS a @ zero_pad 3 (ms_field (microsecond a))"
    if "1000 \<le> year a"
    using v that m(1,3) by (rule str_int_encoded)
qed

theorem encode_field_and_format_witness:
  "to_utc t_offset =
     Inr \<lparr>year = 2024, month = 2, day = 29, hour = 23, minute = 43, second = 34,
          microsecond = 999500, tzinfo = Some 0\<rparr>
   \<and> datetime_to_bigint_hr (Some t_offset) = Inr (Some 20240229234334000)
   \<and> str_int 20240229234334000 = ''20240229234334000''
   \<and> to_utc t_half_ms = Inr t_half_ms
   \<and> datetime_to_bigint_hr (Some t_half_ms) = Inr (Some 20230209084334000)"
proof -
  let ?a = "\<lparr>year = 2024, month = 2, day = 29, hour = 23, minute = 43, second = 34,
          microsecond = 999500, tzinfo = Some 0\<rparr>"
  have u: "to_utc t_offset = Inr ?a" by code_simp
  have v: "valid_datetime ?a" by code_simp
  have s: "strftime_YmdHMS ?a @ zero_pad 3 (ms_field (microsecond ?a)) = ''20240229234334000''"
    by code_simp
  have i: "int_of_digits ''20240229234334000'' = 20240229234334000" by code_simp
  have u2: "to_utc t_half_ms = Inr t_half_ms" by code_simp
  have v2: "valid_datetime t_half_ms" by code_simp
  have s2: "strftime_YmdHMS t_half_ms @ zero_pad 3 (ms_field (microsecond t_half_ms)) =
      ''20230209084334000''" by code_simp
  have i2: "int_of_digits ''20230209084334000'' = 20230209084334000" by code_simp
  have v0: "valid_datetime t_offset" by code_simp
  note t1 = encode_field_and_format [OF v0, THEN conjunct2, THEN conjunct2, THEN spec,
      of ?a, THEN mp, OF u]
  note t2 = encode_field_and_format [OF v2, THEN conjunct2, THEN conjunct2, THEN spec,
      of t_half_ms, THEN mp, OF u2]
  have e1: "datetime_to_bigint_hr (Some t_offset) = Inr (Some 20240229234334000)"
    using t1 [THEN conjunct2, THEN conjunct2, THEN conjunct1] unfolding s i .
  have y: "1000 \<le> year ?a" by simp
  have e2: "str_int 20240229234334000 = ''20240229234334000''"
    using t1 y unfolding s i by blast
  have e3: "datetime_to_bigint_hr (Some t_half_ms) = Inr (Some 20230209084334000)"
    using t2 [THEN conjunct2, THEN conjunct2, THEN conjunct1] unfolding s2 i2 .
  show ?thesis using u e1 e2 u2 e3 by blast
qed




end
